theory Spec2Isabelle
  imports
    Main
    "HOL-Library.Mapping"
    "HOL-Library.AList_Mapping"
    "HOL-Library.Char_ord"
    "HOL-Library.List_Lexorder"
begin

section \<open>The schema side: types, fields, tags, declarations\<close>

text \<open>
  \<open>schema.Builtin\<close> is an integer enumeration whose named constants are declared outside
  \<open>service.go\<close>. One constructor stands for each constant that \<open>builtinToCue\<close> names;
  \<open>Builtin_other n\<close> stands for a value \<open>n\<close> of the underlying integer that is none of them.
\<close>

datatype builtin =
    Builtin_ANY | Builtin_BOOL
  | Builtin_INT8 | Builtin_INT16 | Builtin_INT32 | Builtin_INT64
  | Builtin_UINT8 | Builtin_UINT16 | Builtin_UINT32 | Builtin_UINT64
  | Builtin_FLOAT32 | Builtin_FLOAT64
  | Builtin_STRING | Builtin_BYTES | Builtin_TIME
  | Builtin_UUID | Builtin_JSON | Builtin_USER_ID
  | Builtin_INT | Builtin_UINT
  | Builtin_other int

text \<open>\<open>schema.Named\<close>: the reference to a declaration, by its index \<open>Id\<close> in \<open>Meta.Decls\<close>.\<close>

record named =
  Named_Id :: nat

text \<open>A structured tag of a schema field: \<open>Key\<close>, \<open>Name\<close> and \<open>Options\<close>.\<close>

record tag =
  Key :: string
  Name :: string
  Options :: "string list"

text \<open>
  \<open>schema.Type\<close> is a tagged union; \<open>Type_other\<close> stands for every case of the union
  that the type switch of \<open>toCueType\<close> does not list. \<open>schema.Struct\<close> is its list of
  \<open>schema.Field\<close>s (\<open>SField\<close>: name, type, documentation, tags).
\<close>

datatype type =
    Type_Named named
  | Type_Struct "sfield list"
  | Type_Map type type
  | Type_List type
  | Type_Builtin builtin
  | Type_Config type
  | Type_other
and sfield =
    SField (Field_Name: string) (Field_Typ: type) (Field_Doc: string) (Field_Tags: "tag list")

record decl =
  Decl_Type :: type
  Decl_Doc :: string

section \<open>The document side: the syntax tree of the output\<close>

text \<open>
  Of \<open>token.Pos\<close> only the relative positions that the file writes are kept:
  \<open>NoPos\<close> (the zero value), \<open>token.Blank.Pos()\<close> and \<open>token.NewSection.Pos()\<close>.
\<close>

datatype pos = NoPos | BlankPos | NewSectionPos

datatype token = AND | OR

record comment =
  Slash :: pos
  Text :: string

record comment_group =
  Doc :: bool
  Line :: bool
  Position :: int
  List :: "comment list"

text \<open>
  Expressions and fields of the document tree. \<open>BasicLit\<close> and \<open>UnaryExpr\<close> are not built
  by this file; they are there for what the expression parser returns.
\<close>

datatype expr =
    Ident (Ident_Name: string) (NamePos: pos)
  | SelectorExpr expr expr
  | StructLit "field list"
  | ListLit "expr list"
  | Ellipsis expr
  | BinaryExpr token expr expr
  | UnaryExpr string expr
  | BasicLit string
and field =
    Field (Label: expr) (Optional: pos) (Value: expr) (Comments: "comment_group list")

record import_spec =
  Import_Name :: "expr option"
  Import_Path :: string

datatype ast_decl =
    Package expr
  | ImportDecl "import_spec list"
  | FieldDecl field

record ast_file =
  File_Decls :: "ast_decl list"
  File_Imports :: "import_spec list"
  File_Comments :: "comment_group list"

text \<open>
  A Go \<open>error\<close> value is kept by its message, a panic by its message. \<open>OutOfFuel\<close> is
  not a value of the program: it is what the model returns when the recursion budget of
  \<open>toCueType\<close> is used up (the program would still be running).
\<close>

datatype error = Error string | Panic string | OutOfFuel

subsection \<open>Constructors of the document library\<close>

definition NewIdent :: "string \<Rightarrow> expr" where
  "NewIdent name = Ident name NoPos"

definition NewSel :: "expr \<Rightarrow> string \<Rightarrow> expr" where
  "NewSel x sel = SelectorExpr x (NewIdent sel)"

definition NewBinExpr :: "token \<Rightarrow> expr \<Rightarrow> expr \<Rightarrow> expr" where
  "NewBinExpr op x y = BinaryExpr op x y"

definition NewList :: "expr list \<Rightarrow> expr" where
  "NewList exprs = ListLit exprs"

text \<open>\<open>ast.NewStruct\<close> on a list of fields keeps them as the elements of the literal.\<close>

definition NewStruct :: "field list \<Rightarrow> expr" where
  "NewStruct flds = StructLit flds"

text \<open>
  \<open>ast.NewStruct(label, value)\<close>: a label followed by an expression becomes one field
  with that label and value, not optional and without comments.
\<close>

definition NewStructLabelled :: "expr \<Rightarrow> expr \<Rightarrow> expr" where
  "NewStructLabelled label val = StructLit [Field label NoPos val []]"

definition NewImport :: "expr option \<Rightarrow> string \<Rightarrow> import_spec" where
  "NewImport ident importPath = \<lparr>Import_Name = ident, Import_Path = importPath\<rparr>"

section \<open>builtinToCue\<close>

fun builtinToCue :: "builtin \<Rightarrow> error + expr" where
  "builtinToCue Builtin_ANY = Inr (NewIdent ''_'')"
| "builtinToCue Builtin_BOOL = Inr (NewIdent ''bool'')"
| "builtinToCue Builtin_INT8 = Inr (NewIdent ''int8'')"
| "builtinToCue Builtin_INT16 = Inr (NewIdent ''int16'')"
| "builtinToCue Builtin_INT32 = Inr (NewIdent ''int32'')"
| "builtinToCue Builtin_INT64 = Inr (NewIdent ''int64'')"
| "builtinToCue Builtin_UINT8 = Inr (NewIdent ''uint8'')"
| "builtinToCue Builtin_UINT16 = Inr (NewIdent ''uint16'')"
| "builtinToCue Builtin_UINT32 = Inr (NewIdent ''uint32'')"
| "builtinToCue Builtin_UINT64 = Inr (NewIdent ''uint64'')"
| "builtinToCue Builtin_FLOAT32 = Inr (NewIdent ''float32'')"
| "builtinToCue Builtin_FLOAT64 = Inr (NewIdent ''float64'')"
| "builtinToCue Builtin_STRING = Inr (NewIdent ''string'')"
| "builtinToCue Builtin_BYTES = Inr (NewIdent ''bytes'')"
| "builtinToCue Builtin_TIME = Inr (NewSel (NewIdent ''time'') ''Time'')"
| "builtinToCue Builtin_UUID = Inr (NewIdent ''string'')"
| "builtinToCue Builtin_JSON = Inr (NewIdent ''string'')"
| "builtinToCue Builtin_USER_ID = Inr (NewIdent ''string'')"
| "builtinToCue Builtin_INT = Inr (NewIdent ''int'')"
| "builtinToCue Builtin_UINT = Inr (NewIdent ''uint'')"
| "builtinToCue (Builtin_other n) = Inl (Panic ''unknown builtin'')"

section \<open>What the file uses and does not define\<close>

text \<open>
  The collaborators that \<open>service.go\<close> calls and that live elsewhere are parameters:
  \<^item> \<open>Meta_Decls\<close>: the declaration registry \<open>s.g.res.Meta.Decls\<close>;
  \<^item> \<open>GetConcreteType\<close>, \<open>GetConcreteStructType\<close>: the resolution functions of
    \<open>encoding\<close>, applied to the registry and to no type arguments (the struct resolver
    returns the fields of the record);
  \<^item> \<open>ParseExpr\<close>: the expression parser of the document library;
  \<^item> \<open>LabelName\<close>: \<open>ast.LabelName\<close>, the name under which a label is looked up;
  \<^item> \<open>CueIdentName\<close>: the output identifier assigned to a named type;
  \<^item> \<open>docComment\<close>: the comment block built from a documentation string;
  \<^item> \<open>commentAlreadyPresent\<close>: the test whether a field already carries a comment block.
\<close>

record env =
  Meta_Decls :: "decl list"
  GetConcreteType :: "type \<Rightarrow> error + type"
  GetConcreteStructType :: "type \<Rightarrow> error + sfield list"
  ParseExpr :: "string \<Rightarrow> error + expr"
  LabelName :: "expr \<Rightarrow> error + string"
  CueIdentName :: "named \<Rightarrow> string"
  docComment :: "string \<Rightarrow> comment_group"
  commentAlreadyPresent :: "field \<Rightarrow> comment_group \<Rightarrow> bool"

subsection \<open>The usage table\<close>

text \<open>
  Modelled from the spec: \<open>definitionGenerator\<close> (the type of \<open>typeUsage\<close>) is not in
  \<open>service.go\<close>. The spec describes it as the Usage Table, a mapping from named-type
  identifier to reference count in which every named type appears once and whose counts
  are only incremented. It is kept here in the order in which the types were first counted.
\<close>

record definitionGenerator =
  counts :: "(named \<times> nat) list"

definition newDefinitionGenerator :: definitionGenerator where
  "newDefinitionGenerator = \<lparr>counts = []\<rparr>"

definition Inc :: "definitionGenerator \<Rightarrow> named \<Rightarrow> definitionGenerator" where
  "Inc u n =
     (case map_of (counts u) n of
        None \<Rightarrow> u\<lparr>counts := counts u @ [(n, 1)]\<rparr>
      | Some c \<Rightarrow> u\<lparr>counts := AList.update n (Suc c) (counts u)\<rparr>)"

definition Count :: "definitionGenerator \<Rightarrow> named \<Rightarrow> nat" where
  "Count u n = (case map_of (counts u) n of None \<Rightarrow> 0 | Some c \<Rightarrow> c)"

definition NamesWithCountsOver :: "definitionGenerator \<Rightarrow> nat \<Rightarrow> named list" where
  "NamesWithCountsOver u x = map fst (filter (\<lambda>(n, c). x < c) (counts u))"

text \<open>
  Modelled from the spec: \<open>CueIdent\<close> returns an identifier node carrying the output
  identifier assigned to the named type.
\<close>

definition CueIdent :: "env \<Rightarrow> named \<Rightarrow> expr" where
  "CueIdent env n = NewIdent (CueIdentName env n)"

subsection \<open>Comments on fields\<close>

definition SetComments :: "field \<Rightarrow> comment_group list \<Rightarrow> field" where
  "SetComments f cgs = Field (Label f) (Optional f) (Value f) cgs"

definition AddComment :: "field \<Rightarrow> comment_group \<Rightarrow> field" where
  "AddComment f cg = SetComments f (Comments f @ [cg])"

definition setLabel :: "field \<Rightarrow> expr \<Rightarrow> field" where
  "setLabel f l = Field l (Optional f) (Value f) (Comments f)"

definition setValue :: "field \<Rightarrow> expr \<Rightarrow> field" where
  "setValue f v = Field (Label f) (Optional f) v (Comments f)"

definition setOptional :: "field \<Rightarrow> pos \<Rightarrow> field" where
  "setOptional f p = Field (Label f) p (Value f) (Comments f)"

text \<open>
  Modelled from the spec: \<open>addCommentToField\<close> is not in \<open>service.go\<close>. By the spec the
  documentation of a field becomes a comment block attached to it.
\<close>

definition addCommentToField :: "env \<Rightarrow> field \<Rightarrow> string \<Rightarrow> field" where
  "addCommentToField env f doc = AddComment f (docComment env doc)"

section \<open>structToFields and toCueType\<close>

text \<open>
  The body of the loop over the tags of one schema field. The state of the loop is the
  field under construction and the flag \<open>isOptional\<close>.
\<close>

definition applyTag :: "env \<Rightarrow> field \<times> bool \<Rightarrow> tag \<Rightarrow> error + field \<times> bool" where
  "applyTag env st tag =
     (let (fld, isOptional) = st;
          fld1 = (if Key tag = ''json'' \<and> Name tag \<noteq> [] then setLabel fld (NewIdent (Name tag)) else fld);
          opt1 = (if Key tag = ''json'' then isOptional \<or> ''omitempty'' \<in> set (Options tag) else isOptional)
      in if Key tag = ''cue'' then
           (if Name tag \<noteq> [] then
              (case ParseExpr env (Name tag) of
                 Inl err \<Rightarrow> Inl err
               | Inr e \<Rightarrow>
                   Inr (setValue fld1 (NewBinExpr AND (Value fld1) e),
                        opt1 \<or> ''opt'' \<in> set (Options tag)))
            else Inr (fld1, opt1 \<or> ''opt'' \<in> set (Options tag)))
         else Inr (fld1, opt1))"

fun applyTags :: "env \<Rightarrow> field \<times> bool \<Rightarrow> tag list \<Rightarrow> error + field \<times> bool" where
  "applyTags env st [] = Inr st"
| "applyTags env st (tag # tags) =
     (case applyTag env st tag of
        Inl err \<Rightarrow> Inl err
      | Inr st' \<Rightarrow> applyTags env st' tags)"

text \<open>What \<open>structToFields\<close> does with one schema field once its type is translated.\<close>

definition buildField :: "env \<Rightarrow> string \<Rightarrow> expr \<Rightarrow> string \<Rightarrow> tag list \<Rightarrow> error + field" where
  "buildField env name fieldType doc tags =
     (case applyTags env (Field (NewIdent name) NoPos fieldType [], False) tags of
        Inl err \<Rightarrow> Inl err
      | Inr (fld, isOptional) \<Rightarrow>
          (let fld1 = (if isOptional then setOptional fld BlankPos else fld);
               fld2 = (if doc \<noteq> [] then addCommentToField env fld1 doc else fld1)
           in Inr fld2))"

text \<open>
  The translator. The recursion through a named type goes on with whatever the resolver
  returns, so it need not end; the model gives it a budget \<open>k\<close> of such steps and
  returns \<open>OutOfFuel\<close> when the budget is used up. Every other recursive call is on a
  part of the type.
\<close>

fun toCueType :: "env \<Rightarrow> definitionGenerator \<Rightarrow> nat \<Rightarrow> type \<Rightarrow> error + expr"
and structToFields :: "env \<Rightarrow> definitionGenerator \<Rightarrow> nat \<Rightarrow> sfield list \<Rightarrow> error + field list"
where
  "toCueType env u k (Type_Named n) =
     (if Count u n \<le> 1 then
        (case GetConcreteType env (Type_Named n) of
           Inl err \<Rightarrow> Inl err
         | Inr concrete \<Rightarrow>
             (case k of 0 \<Rightarrow> Inl OutOfFuel | Suc k' \<Rightarrow> toCueType env u k' concrete))
      else Inr (CueIdent env n))"
| "toCueType env u k (Type_Struct flds) =
     (case structToFields env u k flds of
        Inl err \<Rightarrow> Inl err
      | Inr fs \<Rightarrow> Inr (NewStruct fs))"
| "toCueType env u k (Type_Map key val) =
     (case toCueType env u k key of
        Inl err \<Rightarrow> Inl err
      | Inr keyType \<Rightarrow>
          (case toCueType env u k val of
             Inl err \<Rightarrow> Inl err
           | Inr valueType \<Rightarrow> Inr (NewStructLabelled (NewList [keyType]) valueType)))"
| "toCueType env u k (Type_List elem) =
     (case toCueType env u k elem of
        Inl err \<Rightarrow> Inl err
      | Inr listType \<Rightarrow> Inr (NewList [Ellipsis listType]))"
| "toCueType env u k (Type_Builtin b) = builtinToCue b"
| "toCueType env u k (Type_Config elem) = toCueType env u k elem"
| "toCueType env u k Type_other = Inl (Panic ''unexpected type'')"
| "structToFields env u k [] = Inr []"
| "structToFields env u k (SField name t doc tags # flds) =
     (case toCueType env u k t of
        Inl err \<Rightarrow> Inl err
      | Inr fieldType \<Rightarrow>
          (case buildField env name fieldType doc tags of
             Inl err \<Rightarrow> Inl err
           | Inr fld \<Rightarrow>
               (case structToFields env u k flds of
                  Inl err \<Rightarrow> Inl err
                | Inr rest \<Rightarrow> Inr (fld # rest))))"

section \<open>The service and its passes\<close>

text \<open>
  The state of one service. \<open>topLevelFields\<close> and \<open>fieldLookup\<close> hold the same field
  objects (the map points into the list, and a merge updates the object both see), so
  the two are one insertion-ordered table \<open>fieldTable\<close> from name to field:
  \<open>fieldLookup\<close> is its lookup and \<open>topLevelFields\<close> its fields in order.
\<close>

record service =
  svc_Name :: string
  File :: ast_file
  neededImports :: "(string, string) mapping"
  fieldTable :: "(string \<times> field) list"
  typeUsage :: definitionGenerator

definition fieldLookup :: "service \<Rightarrow> string \<Rightarrow> field option" where
  "fieldLookup s = map_of (fieldTable s)"

definition topLevelFields :: "service \<Rightarrow> field list" where
  "topLevelFields s = map snd (fieldTable s)"

subsection \<open>countNamedUsagesAndCollectImports\<close>

text \<open>
  \<open>schema.Walk\<close> is outside \<open>service.go\<close>; what it does is given by the nodes on which it
  calls the visitor, in order, and by the error it returns. The visitor below is the
  function literal of the source; it never returns an error.
\<close>

datatype node = Node_Named named | Node_Builtin builtin | Node_other

definition visit :: "service \<Rightarrow> node \<Rightarrow> service" where
  "visit s nd =
     (case nd of
        Node_Named n \<Rightarrow> s\<lparr>typeUsage := Inc (typeUsage s) n\<rparr>
      | Node_Builtin b \<Rightarrow>
          (if b = Builtin_TIME
           then s\<lparr>neededImports := Mapping.update ''time'' ''time'' (neededImports s)\<rparr>
           else s)
      | Node_other \<Rightarrow> s)"

definition countNamedUsagesAndCollectImports ::
    "(type \<Rightarrow> node list \<times> error option) \<Rightarrow> service \<Rightarrow> type \<Rightarrow> error + service" where
  "countNamedUsagesAndCollectImports Walk s t =
     (case Walk t of
        (nodes, Some err) \<Rightarrow> Inl err
      | (nodes, None) \<Rightarrow> Inr (foldl visit s nodes))"

text \<open>
  Modelled from the spec: the loop that runs the counting pass for every declared type
  of the service is outside \<open>service.go\<close>. By the spec the Usage Counter runs first,
  over all such types, and a failure ends the generation for the service.
\<close>

fun countDeclarations ::
    "(type \<Rightarrow> node list \<times> error option) \<Rightarrow> service \<Rightarrow> type list \<Rightarrow> error + service" where
  "countDeclarations Walk s [] = Inr s"
| "countDeclarations Walk s (t # ts) =
     (case countNamedUsagesAndCollectImports Walk s t of
        Inl err \<Rightarrow> Inl err
      | Inr s1 \<Rightarrow> countDeclarations Walk s1 ts)"

text \<open>The named types among the nodes of a walk, in the order of the visits.\<close>

definition visitedNamed :: "node list \<Rightarrow> named list" where
  "visitedNamed nodes = concat (map (\<lambda>nd. case nd of Node_Named n \<Rightarrow> [n] | _ \<Rightarrow> []) nodes)"

subsection \<open>registerTopLevelField\<close>

definition appendToFirstGroup :: "field \<Rightarrow> comment list \<Rightarrow> field" where
  "appendToFirstGroup f cs =
     (case Comments f of
        [] \<Rightarrow> f
      | g # gs \<Rightarrow> SetComments f (g\<lparr>List := List g @ cs\<rparr> # gs))"

text \<open>The loop over the comment groups of the incoming field.\<close>

fun appendMissing :: "env \<Rightarrow> field \<Rightarrow> comment_group list \<Rightarrow> field" where
  "appendMissing env existing [] = existing"
| "appendMissing env existing (cg # rest) =
     appendMissing env
       (if \<not> commentAlreadyPresent env existing cg
        then appendToFirstGroup existing (List cg) else existing)
       rest"

text \<open>The test \<open>len(existingCommentGrp.List) > 0\<close> and the two assignments under it.\<close>

definition reposition :: "field \<Rightarrow> field" where
  "reposition f =
     (case Comments f of
        [] \<Rightarrow> f
      | g # gs \<Rightarrow>
          (case List g of
             [] \<Rightarrow> f
           | c # cs \<Rightarrow>
               SetComments f (g\<lparr>Position := 0, List := c\<lparr>Slash := NewSectionPos\<rparr> # cs\<rparr> # gs)))"

definition mergeComments :: "env \<Rightarrow> field \<Rightarrow> field \<Rightarrow> field" where
  "mergeComments env existing fld =
     (if Comments fld \<noteq> [] then
        (if Comments existing = [] then SetComments existing (Comments fld)
         else reposition (appendMissing env existing (Comments fld)))
      else existing)"

definition mergeField :: "env \<Rightarrow> field \<Rightarrow> field \<Rightarrow> field" where
  "mergeField env existing fld =
     (let existing1 = mergeComments env existing fld
      in if Value existing1 \<noteq> Value fld
         then setValue existing1 (NewBinExpr AND (Value existing1) (Value fld))
         else existing1)"

text \<open>The loop over the fields of one declaration.\<close>

fun registerFields :: "env \<Rightarrow> service \<Rightarrow> field list \<Rightarrow> error + service" where
  "registerFields env s [] = Inr s"
| "registerFields env s (fld # flds) =
     (case LabelName env (Label fld) of
        Inl err \<Rightarrow> Inl err
      | Inr name \<Rightarrow>
          (case fieldLookup s name of
             Some existing \<Rightarrow>
               registerFields env
                 (s\<lparr>fieldTable := AList.update name (mergeField env existing fld) (fieldTable s)\<rparr>)
                 flds
           | None \<Rightarrow>
               registerFields env (s\<lparr>fieldTable := fieldTable s @ [(name, fld)]\<rparr>) flds))"

definition registerTopLevelField :: "env \<Rightarrow> nat \<Rightarrow> service \<Rightarrow> type \<Rightarrow> error + service" where
  "registerTopLevelField env k s t =
     (case GetConcreteStructType env t of
        Inl err \<Rightarrow> Inl err
      | Inr concrete \<Rightarrow>
          (case structToFields env (typeUsage s) k concrete of
             Inl err \<Rightarrow> Inl err
           | Inr flds \<Rightarrow> registerFields env s flds))"

subsection \<open>generateCue\<close>

definition headerComment :: comment_group where
  "headerComment =
     \<lparr>Doc = False, Line = False, Position = 0,
      List = map (\<lambda>t. \<lparr>Slash = NoPos, Text = t\<rparr>)
        [''// Code generated by encore. DO NOT EDIT.'',
         ''//'',
         ''// The contents of this file are generated from the structs used in'',
         ''// conjunction with Encore'' @ [CHR 0x27] @ ''s `config.Load[T]()` function. This file'',
         ''// automatically be regenerated if the data types within the struct'',
         ''// are changed.'',
         ''//'',
         ''// For more information about this file, see:'',
         ''// https://encore.dev/docs/develop/config'']\<rparr>"

definition importSpec :: "(string, string) mapping \<Rightarrow> string \<Rightarrow> import_spec" where
  "importSpec m importPath =
     NewImport
       (if Mapping.lookup_default [] m importPath \<noteq> importPath
        then Some (NewIdent (Mapping.lookup_default [] m importPath)) else None)
       importPath"

text \<open>The body of the loop over the named types used more than once.\<close>

definition namedDefinition :: "env \<Rightarrow> definitionGenerator \<Rightarrow> nat \<Rightarrow> named \<Rightarrow> error + field" where
  "namedDefinition env u k n =
     (if Named_Id n < length (Meta_Decls env) then
        (let d = Meta_Decls env ! Named_Id n in
         case GetConcreteType env (Type_Named n) of
           Inl err \<Rightarrow> Inl err
         | Inr concrete \<Rightarrow>
             (let defIdent = CueIdent env n in
              case toCueType env u k concrete of
                Inl err \<Rightarrow> Inl err
              | Inr fieldType \<Rightarrow>
                  (let fld = Field defIdent NoPos fieldType [] in
                   if Decl_Doc d \<noteq> [] then Inr (addCommentToField env fld (Decl_Doc d))
                   else Inr (setLabel fld (Ident (Ident_Name defIdent) NewSectionPos)))))
      else Inl (Panic ''index out of range''))"

fun hoistedDefinitions ::
    "env \<Rightarrow> definitionGenerator \<Rightarrow> nat \<Rightarrow> named list \<Rightarrow> error + field list" where
  "hoistedDefinitions env u k [] = Inr []"
| "hoistedDefinitions env u k (n # ns) =
     (case namedDefinition env u k n of
        Inl err \<Rightarrow> Inl err
      | Inr d \<Rightarrow>
          (case hoistedDefinitions env u k ns of
             Inl err \<Rightarrow> Inl err
           | Inr ds \<Rightarrow> Inr (d # ds)))"

definition addHeader :: "service \<Rightarrow> ast_file" where
  "addHeader s =
     (File s)\<lparr>File_Decls := File_Decls (File s) @ [Package (NewIdent (svc_Name s))],
              File_Comments := File_Comments (File s) @ [headerComment]\<rparr>"

text \<open>
  The import specs of the needed imports: the keys of the map, sorted, each made into
  its spec.
\<close>

definition importSpecs :: "(string, string) mapping \<Rightarrow> import_spec list" where
  "importSpecs m = (let imports = Mapping.ordered_keys m in map (importSpec m) imports)"

definition addImports :: "(string, string) mapping \<Rightarrow> ast_file \<Rightarrow> ast_file" where
  "addImports m f =
     (if \<not> Mapping.is_empty m then
        (let f1 = f\<lparr>File_Imports := File_Imports f @ importSpecs m\<rparr>
         in f1\<lparr>File_Decls := File_Decls f1 @ [ImportDecl (File_Imports f1)]\<rparr>)
      else f)"

definition generateCue :: "env \<Rightarrow> nat \<Rightarrow> service \<Rightarrow> error + service" where
  "generateCue env k s =
     (if topLevelFields s = [] then Inr s
      else
        (let f2 = addImports (neededImports s) (addHeader s) in
         case hoistedDefinitions env (typeUsage s) k (NamesWithCountsOver (typeUsage s) 1) of
           Inl err \<Rightarrow> Inl err
         | Inr defs \<Rightarrow>
             Inr (s\<lparr>File := f2\<lparr>File_Decls :=
                    File_Decls f2 @ map FieldDecl defs @ map FieldDecl (topLevelFields s)\<rparr>\<rparr>)))"

section \<open>An instance of the collaborators\<close>

text \<open>
  To evaluate the definitions on concrete inputs the parameters need values. The
  instance below is a small registry of seven declarations with the simplest
  collaborators: resolution looks the declaration up, the parser knows two fragments,
  a label's name is the name of its identifier, a documentation string becomes a
  one-line comment, and a comment block is present when all its lines are, by text.
\<close>

definition exampleDecls :: "decl list" where
  "exampleDecls =
     [\<lparr>Decl_Type = Type_Struct [SField ''Count'' (Type_Builtin Builtin_INT) [] []],
       Decl_Doc = []\<rparr>,
      \<lparr>Decl_Type = Type_Struct [SField ''Port'' (Type_Builtin Builtin_INT) ''The port'' []],
       Decl_Doc = ''Server settings''\<rparr>,
      \<lparr>Decl_Type = Type_Struct [SField ''Name'' (Type_Builtin Builtin_STRING) [] []],
       Decl_Doc = []\<rparr>,
      \<lparr>Decl_Type = Type_Struct
         [SField ''Name'' (Type_Builtin Builtin_STRING) []
            [\<lparr>Key = ''json'', Name = [], Options = [''omitempty'']\<rparr>]],
       Decl_Doc = []\<rparr>,
      \<lparr>Decl_Type = Type_Struct [], Decl_Doc = []\<rparr>,
      \<lparr>Decl_Type = Type_Struct
         [SField ''Count'' (Type_Builtin Builtin_INT) []
            [\<lparr>Key = ''cue'', Name = ''('', Options = [''opt'']\<rparr>]],
       Decl_Doc = []\<rparr>,
      \<lparr>Decl_Type = Type_Struct
         [SField ''Retry'' (Type_Named \<lparr>Named_Id = 0\<rparr>) [] [],
          SField ''Backup'' (Type_Named \<lparr>Named_Id = 0\<rparr>) [] [],
          SField ''Server'' (Type_Named \<lparr>Named_Id = 1\<rparr>) [] []],
       Decl_Doc = []\<rparr>]"

definition exampleGetConcreteType :: "type \<Rightarrow> error + type" where
  "exampleGetConcreteType t =
     (case t of
        Type_Named n \<Rightarrow>
          (if Named_Id n < length exampleDecls then Inr (Decl_Type (exampleDecls ! Named_Id n))
           else Inl (Error ''unknown declaration''))
      | _ \<Rightarrow> Inr t)"

definition exampleGetConcreteStructType :: "type \<Rightarrow> error + sfield list" where
  "exampleGetConcreteStructType t =
     (case exampleGetConcreteType t of
        Inl err \<Rightarrow> Inl err
      | Inr (Type_Struct flds) \<Rightarrow> Inr flds
      | Inr _ \<Rightarrow> Inl (Error ''not a struct''))"

definition exampleParseExpr :: "string \<Rightarrow> error + expr" where
  "exampleParseExpr src =
     (if src = ''>=0'' then Inr (UnaryExpr ''>='' (BasicLit ''0''))
      else if src = ''string'' then Inr (Ident ''string'' NoPos)
      else Inl (Error ''expected operand''))"

definition exampleLabelName :: "expr \<Rightarrow> error + string" where
  "exampleLabelName l =
     (case l of Ident name p \<Rightarrow> Inr name | _ \<Rightarrow> Inl (Error ''not a static label''))"

definition exampleCueIdentName :: "named \<Rightarrow> string" where
  "exampleCueIdentName n =
     (if Named_Id n = 0 then ''#Retry'' else if Named_Id n = 1 then ''#Server'' else ''#Other'')"

definition exampleDocComment :: "string \<Rightarrow> comment_group" where
  "exampleDocComment doc =
     \<lparr>Doc = False, Line = True, Position = 4,
      List = [\<lparr>Slash = NoPos, Text = ''// '' @ doc\<rparr>]\<rparr>"

definition exampleCommentAlreadyPresent :: "field \<Rightarrow> comment_group \<Rightarrow> bool" where
  "exampleCommentAlreadyPresent f cg =
     list_all (\<lambda>c. Text c \<in> set (concat (map (\<lambda>g. map Text (List g)) (Comments f)))) (List cg)"

definition exampleEnv :: env where
  "exampleEnv =
     \<lparr>Meta_Decls = exampleDecls,
      GetConcreteType = exampleGetConcreteType,
      GetConcreteStructType = exampleGetConcreteStructType,
      ParseExpr = exampleParseExpr,
      LabelName = exampleLabelName,
      CueIdentName = exampleCueIdentName,
      docComment = exampleDocComment,
      commentAlreadyPresent = exampleCommentAlreadyPresent\<rparr>"

definition exampleService :: service where
  "exampleService =
     \<lparr>svc_Name = ''svc'',
      File = \<lparr>File_Decls = [], File_Imports = [], File_Comments = []\<rparr>,
      neededImports = Mapping.empty,
      fieldTable = [],
      typeUsage = newDefinitionGenerator\<rparr>"

text \<open>
  The walk of the instance follows the spec's description of the traversal: depth
  first, the visitor called once for each node met, repeats included, and at a named
  reference the traversal goes on into the resolved declaration. It is cut at a depth
  that the registry of the instance does not reach.
\<close>

fun exampleWalkNodes :: "nat \<Rightarrow> type \<Rightarrow> node list"
and exampleWalkFields :: "nat \<Rightarrow> sfield list \<Rightarrow> node list"
where
  "exampleWalkNodes k (Type_Named n) =
     Node_Named n #
       (if Named_Id n < length exampleDecls then
          (case k of
             0 \<Rightarrow> []
           | Suc k' \<Rightarrow> exampleWalkNodes k' (Decl_Type (exampleDecls ! Named_Id n)))
        else [])"
| "exampleWalkNodes k (Type_Struct flds) = Node_other # exampleWalkFields k flds"
| "exampleWalkNodes k (Type_Map key val) =
     Node_other # exampleWalkNodes k key @ exampleWalkNodes k val"
| "exampleWalkNodes k (Type_List elem) = Node_other # exampleWalkNodes k elem"
| "exampleWalkNodes k (Type_Builtin b) = [Node_Builtin b]"
| "exampleWalkNodes k (Type_Config elem) = Node_other # exampleWalkNodes k elem"
| "exampleWalkNodes k Type_other = [Node_other]"
| "exampleWalkFields k [] = []"
| "exampleWalkFields k (SField name t doc tags # flds) =
     exampleWalkNodes k t @ exampleWalkFields k flds"

definition exampleWalk :: "type \<Rightarrow> node list \<times> error option" where
  "exampleWalk t = (exampleWalkNodes 4 t, None)"

definition exampleRetry :: named where
  "exampleRetry = \<lparr>Named_Id = 0\<rparr>"

definition exampleServer :: named where
  "exampleServer = \<lparr>Named_Id = 1\<rparr>"

definition exampleApp :: named where
  "exampleApp = \<lparr>Named_Id = 6\<rparr>"

text \<open>
  A service after the counting pass has visited the named types \<open>Retry\<close>, \<open>Server\<close>,
  \<open>Retry\<close> and a timestamp, with one field in its table and with a second needed
  import whose name is not its path.
\<close>

definition exampleCounted :: service where
  "exampleCounted =
     exampleService
       \<lparr>neededImports := Mapping.update ''time'' ''time'' (Mapping.update ''strings'' ''str'' Mapping.empty),
        fieldTable := [(''retry'', Field (Ident ''retry'' NoPos) NoPos (Ident ''#Retry'' NoPos) [])],
        typeUsage := foldl Inc newDefinitionGenerator [exampleRetry, exampleServer, exampleRetry]\<rparr>"

text \<open>
  A service whose one declaration loads \<open>App\<close>, after the counting pass and after the
  registration of the declaration: \<open>App\<close> is visited once, \<open>Retry\<close> twice (two fields
  of \<open>App\<close>) and \<open>Server\<close> once.
\<close>

definition exampleAppCounted :: service where
  "exampleAppCounted =
     exampleService\<lparr>typeUsage := \<lparr>counts = [(exampleApp, 1), (exampleRetry, 2), (exampleServer, 1)]\<rparr>\<rparr>"

definition exampleAppRegistered :: service where
  "exampleAppRegistered =
     exampleAppCounted
       \<lparr>fieldTable :=
          [(''Retry'', Field (Ident ''Retry'' NoPos) NoPos (Ident ''#Retry'' NoPos) []),
           (''Backup'', Field (Ident ''Backup'' NoPos) NoPos (Ident ''#Retry'' NoPos) []),
           (''Server'', Field (Ident ''Server'' NoPos) NoPos
              (StructLit [Field (Ident ''Port'' NoPos) NoPos (Ident ''int'' NoPos)
                            [exampleDocComment ''The port'']]) [])]\<rparr>"

text \<open>
  A service whose two declarations both load \<open>Retry\<close>, after the counting pass and
  after the registration of the declarations.
\<close>

definition exampleTwoLoadsCounted :: service where
  "exampleTwoLoadsCounted = exampleService\<lparr>typeUsage := \<lparr>counts = [(exampleRetry, 2)]\<rparr>\<rparr>"

definition exampleTwoLoadsRegistered :: service where
  "exampleTwoLoadsRegistered =
     exampleTwoLoadsCounted
       \<lparr>fieldTable := [(''Count'', Field (Ident ''Count'' NoPos) NoPos (Ident ''int'' NoPos) [])]\<rparr>"

definition examplePort :: field where
  "examplePort =
     Field (Ident ''Port'' NoPos) NoPos (Ident ''int'' NoPos) [exampleDocComment ''The port'']"

definition exampleName :: field where
  "exampleName = Field (Ident ''Name'' NoPos) NoPos (Ident ''string'' NoPos) []"

section \<open>Unfolding the definitions\<close>

text \<open>The definitions that an evaluation on a concrete input unfolds.\<close>

lemmas example_defs =
  exampleCounted_def exampleService_def exampleRetry_def exampleServer_def exampleEnv_def
  exampleDecls_def exampleGetConcreteType_def exampleGetConcreteStructType_def
  exampleParseExpr_def exampleLabelName_def exampleCueIdentName_def exampleDocComment_def
  exampleCommentAlreadyPresent_def

lemmas model_defs =
  newDefinitionGenerator_def Inc_def Count_def NamesWithCountsOver_def CueIdent_def
  NewIdent_def NewSel_def NewBinExpr_def NewList_def NewStruct_def NewStructLabelled_def
  NewImport_def SetComments_def AddComment_def setLabel_def setValue_def setOptional_def
  addCommentToField_def applyTag_def buildField_def fieldLookup_def topLevelFields_def

section \<open>Facts about the usage table\<close>

lemma Inc_keys:
  "map fst (counts (Inc u n)) =
     (if n \<in> set (map fst (counts u)) then map fst (counts u) else map fst (counts u) @ [n])"
  by (auto simp: Inc_def AList.update_keys map_of_eq_None_iff split: option.splits
      dest: map_of_SomeD)

lemma Count_Inc: "Count (Inc u n) m = (if m = n then Suc (Count u n) else Count u m)"
  by (auto simp: Inc_def Count_def AList.update_conv' map_add_def split: option.splits)

lemma foldl_Inc_distinct:
  "distinct (map fst (counts u)) \<Longrightarrow> distinct (map fst (counts (foldl Inc u ns)))"
  by (induction ns arbitrary: u) (simp_all add: Inc_keys)

lemma Count_foldl_Inc: "Count (foldl Inc u ns) m = Count u m + count_list ns m"
  by (induction ns arbitrary: u) (simp_all add: Count_Inc)

lemma NamesWithCountsOver_distinct:
  "distinct (map fst (counts u)) \<Longrightarrow> distinct (NamesWithCountsOver u x)"
  by (simp add: NamesWithCountsOver_def distinct_map_filter)

lemma NamesWithCountsOver_mem:
  assumes "distinct (map fst (counts u))"
  shows "n \<in> set (NamesWithCountsOver u x) \<longleftrightarrow> x < Count u n"
proof
  assume "n \<in> set (NamesWithCountsOver u x)"
  then obtain c where c: "(n, c) \<in> set (counts u)" "x < c"
    by (auto simp: NamesWithCountsOver_def)
  from c(1) assms have "map_of (counts u) n = Some c" by simp
  with c(2) show "x < Count u n" by (simp add: Count_def)
next
  assume "x < Count u n"
  then obtain c where c: "map_of (counts u) n = Some c" "x < c"
    by (auto simp: Count_def split: option.splits)
  from c(1) have "(n, c) \<in> set (counts u)" by (rule map_of_SomeD)
  with c(2) show "n \<in> set (NamesWithCountsOver u x)"
    by (force simp: NamesWithCountsOver_def)
qed

lemma count_list_distinct: "distinct xs \<Longrightarrow> count_list xs x = (if x \<in> set xs then 1 else 0)"
  by (induction xs) auto

text \<open>
  The counting pass increments the table once for each named node the walk visits, in
  the order of the visits.
\<close>

lemma typeUsage_foldl_visit:
  "typeUsage (foldl visit s nodes) =
     foldl Inc (typeUsage s) (concat (map (\<lambda>nd. case nd of Node_Named n \<Rightarrow> [n] | _ \<Rightarrow> []) nodes))"
  by (induction nodes arbitrary: s) (simp_all add: visit_def split: node.splits)

section \<open>The primitive mapping table\<close>

text \<open>
  C6. The translation of every builtin kind is the fixed table: ANY is \<open>_\<close>, BOOL is
  \<open>bool\<close>, the sized integers and floats keep their names, INT is \<open>int\<close>, UINT is
  \<open>uint\<close>, STRING is \<open>string\<close>, BYTES is \<open>bytes\<close>, TIME is the selector \<open>time.Time\<close>,
  and UUID, JSON and USER_ID are \<open>string\<close>. A kind outside the enumeration is a panic,
  and the panic arises for no kind of the enumeration. The translator returns for a
  builtin type what the table gives.
\<close>

theorem builtinToCue_table:
  "builtinToCue Builtin_ANY = Inr (Ident ''_'' NoPos)
   \<and> builtinToCue Builtin_BOOL = Inr (Ident ''bool'' NoPos)
   \<and> builtinToCue Builtin_INT8 = Inr (Ident ''int8'' NoPos)
   \<and> builtinToCue Builtin_INT16 = Inr (Ident ''int16'' NoPos)
   \<and> builtinToCue Builtin_INT32 = Inr (Ident ''int32'' NoPos)
   \<and> builtinToCue Builtin_INT64 = Inr (Ident ''int64'' NoPos)
   \<and> builtinToCue Builtin_UINT8 = Inr (Ident ''uint8'' NoPos)
   \<and> builtinToCue Builtin_UINT16 = Inr (Ident ''uint16'' NoPos)
   \<and> builtinToCue Builtin_UINT32 = Inr (Ident ''uint32'' NoPos)
   \<and> builtinToCue Builtin_UINT64 = Inr (Ident ''uint64'' NoPos)
   \<and> builtinToCue Builtin_INT = Inr (Ident ''int'' NoPos)
   \<and> builtinToCue Builtin_UINT = Inr (Ident ''uint'' NoPos)
   \<and> builtinToCue Builtin_FLOAT32 = Inr (Ident ''float32'' NoPos)
   \<and> builtinToCue Builtin_FLOAT64 = Inr (Ident ''float64'' NoPos)
   \<and> builtinToCue Builtin_STRING = Inr (Ident ''string'' NoPos)
   \<and> builtinToCue Builtin_BYTES = Inr (Ident ''bytes'' NoPos)
   \<and> builtinToCue Builtin_TIME = Inr (SelectorExpr (Ident ''time'' NoPos) (Ident ''Time'' NoPos))
   \<and> builtinToCue Builtin_UUID = Inr (Ident ''string'' NoPos)
   \<and> builtinToCue Builtin_JSON = Inr (Ident ''string'' NoPos)
   \<and> builtinToCue Builtin_USER_ID = Inr (Ident ''string'' NoPos)
   \<and> (\<forall>n. builtinToCue (Builtin_other n) = Inl (Panic ''unknown builtin''))
   \<and> (\<forall>b. isl (builtinToCue b) = (\<exists>n. b = Builtin_other n))
   \<and> (\<forall>env u k b. toCueType env u k (Type_Builtin b) = builtinToCue b)"
proof -
  have known: "isl (builtinToCue b) = (\<exists>n. b = Builtin_other n)" for b
    by (cases b) simp_all
  show ?thesis
    using known by (simp add: NewIdent_def NewSel_def)
qed

section \<open>The config wrapper\<close>

text \<open>
  C7. For every inner type \<open>t\<close>, the translation of the config wrapper around \<open>t\<close> is
  the translation of \<open>t\<close>: the same expression, or the same failure, with the same
  budget; the wrapper adds no node.
\<close>

theorem config_wrapper_transparent:
  "toCueType env u k (Type_Config t) = toCueType env u k t"
  by simp

section \<open>Inlining and hoisting of named types\<close>

lemma namedDefinition_label:
  "namedDefinition env u k n = Inr d \<Longrightarrow> Ident_Name (Label d) = CueIdentName env n"
  by (auto simp: namedDefinition_def Let_def CueIdent_def NewIdent_def addCommentToField_def
      AddComment_def SetComments_def setLabel_def split: if_splits sum.splits)

lemma hoistedDefinitions_all2:
  "hoistedDefinitions env u k ns = Inr ds \<Longrightarrow>
   list_all2 (\<lambda>n d. namedDefinition env u k n = Inr d \<and> Ident_Name (Label d) = CueIdentName env n) ns ds"
  by (induction ns arbitrary: ds) (auto split: sum.splits simp: namedDefinition_label)

lemma generateCue_decls:
  assumes "generateCue env k s = Inr s'" and "topLevelFields s \<noteq> []"
  shows "\<exists>defs. hoistedDefinitions env (typeUsage s) k (NamesWithCountsOver (typeUsage s) 1) = Inr defs
          \<and> File_Decls (File s') =
              File_Decls (addImports (neededImports s) (addHeader s)) @ map FieldDecl defs
                @ map FieldDecl (topLevelFields s)"
  using assms by (auto simp: generateCue_def Let_def split: sum.splits)

lemma visitedNamed_append: "visitedNamed (xs @ ys) = visitedNamed xs @ visitedNamed ys"
  by (simp add: visitedNamed_def)

lemma countNamedUsages_usage:
  "countNamedUsagesAndCollectImports Walk s t = Inr s' \<Longrightarrow>
   typeUsage s' = foldl Inc (typeUsage s) (visitedNamed (fst (Walk t)))"
  by (cases "Walk t")
     (auto simp: countNamedUsagesAndCollectImports_def typeUsage_foldl_visit visitedNamed_def
       split: option.splits)

lemma countDeclarations_usage:
  "countDeclarations Walk s ts = Inr s' \<Longrightarrow>
   typeUsage s' = foldl Inc (typeUsage s) (visitedNamed (concat (map (\<lambda>t. fst (Walk t)) ts)))"
proof (induction ts arbitrary: s)
  case Nil
  then show ?case by (simp add: visitedNamed_def)
next
  case (Cons t ts)
  from Cons.prems obtain s1 where
    one: "countNamedUsagesAndCollectImports Walk s t = Inr s1"
    and rest: "countDeclarations Walk s1 ts = Inr s'"
    by (auto split: sum.splits)
  from Cons.IH [OF rest] countNamedUsages_usage [OF one] show ?case
    by (simp add: visitedNamed_append)
qed

lemma hoistedDefinitions_iff:
  "(hoistedDefinitions env u k ns = Inr ds) =
     list_all2 (\<lambda>n d. namedDefinition env u k n = Inr d) ns ds"
proof (induction ns arbitrary: ds)
  case Nil
  show ?case by auto
next
  case (Cons n ns)
  show ?case
  proof (cases ds)
    case Nil
    then show ?thesis by (auto split: sum.splits)
  next
    case (Cons d ds')
    with Cons.IH [of ds'] show ?thesis by (auto split: sum.splits)
  qed
qed

lemma namedDefinition_unfold:
  "namedDefinition env u k n =
     (if Named_Id n < length (Meta_Decls env) then
        (case GetConcreteType env (Type_Named n) of
           Inl err \<Rightarrow> Inl err
         | Inr concrete \<Rightarrow>
             (case toCueType env u k concrete of
                Inl err \<Rightarrow> Inl err
              | Inr body \<Rightarrow>
                  Inr (if Decl_Doc (Meta_Decls env ! Named_Id n) \<noteq> []
                       then Field (Ident (CueIdentName env n) NoPos) NoPos body
                              [docComment env (Decl_Doc (Meta_Decls env ! Named_Id n))]
                       else Field (Ident (CueIdentName env n) NewSectionPos) NoPos body [])))
      else Inl (Panic ''index out of range''))"
  by (simp add: namedDefinition_def Let_def CueIdent_def NewIdent_def addCommentToField_def
      AddComment_def SetComments_def setLabel_def split: sum.splits)

text \<open>
  C1, as the code has it. Let the usage table be the one the counting pass leaves after
  walking every declared type of the service; the count of a named type is then the
  number of times the walk visited it. For a named type counted at most once, the
  translator resolves a reference to it and translates the resolved body in place, and
  the type is not among those that get a standalone definition. For a named type
  counted twice or more, every reference to it that the translator translates is the
  reference expression to its assigned identifier, also under a list or a config
  wrapper, so a field of that type has the reference as its value, and the type is
  exactly once among those that get a standalone definition. The document of \<open>generateCue\<close> has, after header and imports,
  the definitions of exactly those types, in their order, each labelled with the
  identifier of its type and holding the translation of the resolved body, followed by
  the top-level fields. The root type of a declaration is not translated:
  \<open>registerTopLevelField\<close> resolves it to its record and registers the fields of the
  record at top level without looking at its count.
\<close>

theorem hoisting_threshold:
  assumes "typeUsage s0 = newDefinitionGenerator"
    and "countDeclarations Walk s0 roots = Inr sc"
    and "typeUsage s = typeUsage sc"
  shows "Count (typeUsage s) n =
           count_list (visitedNamed (concat (map (\<lambda>t. fst (Walk t)) roots))) n
         \<and> (if Count (typeUsage s) n \<le> 1
             then toCueType env (typeUsage s) (Suc k) (Type_Named n) =
                    (case GetConcreteType env (Type_Named n) of
                       Inl err \<Rightarrow> Inl err
                     | Inr concrete \<Rightarrow> toCueType env (typeUsage s) k concrete)
                  \<and> count_list (NamesWithCountsOver (typeUsage s) 1) n = 0
             else toCueType env (typeUsage s) k (Type_Named n) =
                    Inr (Ident (CueIdentName env n) NoPos)
                  \<and> toCueType env (typeUsage s) k (Type_List (Type_Config (Type_Named n))) =
                      Inr (ListLit [Ellipsis (Ident (CueIdentName env n) NoPos)])
                  \<and> structToFields env (typeUsage s) k [SField name (Type_Named n) doc []] =
                      Inr [Field (Ident name NoPos) NoPos (Ident (CueIdentName env n) NoPos)
                             (if doc \<noteq> [] then [docComment env doc] else [])]
                  \<and> count_list (NamesWithCountsOver (typeUsage s) 1) n = 1)
         \<and> generateCue env k s =
             (if topLevelFields s = [] then Inr s
              else
                (case hoistedDefinitions env (typeUsage s) k (NamesWithCountsOver (typeUsage s) 1) of
                   Inl err \<Rightarrow> Inl err
                 | Inr defs \<Rightarrow>
                     Inr (s\<lparr>File := (addImports (neededImports s) (addHeader s))
                            \<lparr>File_Decls :=
                               File_Decls (addImports (neededImports s) (addHeader s))
                                 @ map FieldDecl defs @ map FieldDecl (topLevelFields s)\<rparr>\<rparr>)))
         \<and> (hoistedDefinitions env (typeUsage s) k (NamesWithCountsOver (typeUsage s) 1) = Inr defs) =
             list_all2 (\<lambda>m d. namedDefinition env (typeUsage s) k m = Inr d)
               (NamesWithCountsOver (typeUsage s) 1) defs
         \<and> namedDefinition env (typeUsage s) k n =
             (if Named_Id n < length (Meta_Decls env) then
                (case GetConcreteType env (Type_Named n) of
                   Inl err \<Rightarrow> Inl err
                 | Inr concrete \<Rightarrow>
                     (case toCueType env (typeUsage s) k concrete of
                        Inl err \<Rightarrow> Inl err
                      | Inr body \<Rightarrow>
                          Inr (if Decl_Doc (Meta_Decls env ! Named_Id n) \<noteq> []
                               then Field (Ident (CueIdentName env n) NoPos) NoPos body
                                      [docComment env (Decl_Doc (Meta_Decls env ! Named_Id n))]
                               else Field (Ident (CueIdentName env n) NewSectionPos) NoPos body [])))
              else Inl (Panic ''index out of range''))
         \<and> registerTopLevelField env k s (Type_Named n) =
             (case GetConcreteStructType env (Type_Named n) of
                Inl err \<Rightarrow> Inl err
              | Inr flds \<Rightarrow>
                  (case structToFields env (typeUsage s) k flds of
                     Inl err \<Rightarrow> Inl err
                   | Inr fs \<Rightarrow> registerFields env s fs))"
proof -
  let ?u = "typeUsage s"
  let ?ns = "visitedNamed (concat (map (\<lambda>t. fst (Walk t)) roots))"
  have table: "?u = foldl Inc newDefinitionGenerator ?ns"
    using countDeclarations_usage [OF assms(2)] assms(1,3) by simp
  have dist: "distinct (map fst (counts ?u))"
    unfolding table by (rule foldl_Inc_distinct) (simp add: newDefinitionGenerator_def)
  have cnt: "Count ?u n = count_list ?ns n"
    unfolding table by (simp add: Count_foldl_Inc) (simp add: Count_def newDefinitionGenerator_def)
  have mem: "n \<in> set (NamesWithCountsOver ?u 1) \<longleftrightarrow> 1 < Count ?u n"
    by (rule NamesWithCountsOver_mem [OF dist])
  have once: "count_list (NamesWithCountsOver ?u 1) n = (if 1 < Count ?u n then 1 else 0)"
    using count_list_distinct [OF NamesWithCountsOver_distinct [OF dist], of 1 n] mem by simp
  have threshold: "if Count ?u n \<le> 1
      then toCueType env ?u (Suc k) (Type_Named n) =
             (case GetConcreteType env (Type_Named n) of
                Inl err \<Rightarrow> Inl err
              | Inr concrete \<Rightarrow> toCueType env ?u k concrete)
           \<and> count_list (NamesWithCountsOver ?u 1) n = 0
      else toCueType env ?u k (Type_Named n) = Inr (Ident (CueIdentName env n) NoPos)
           \<and> toCueType env ?u k (Type_List (Type_Config (Type_Named n))) =
               Inr (ListLit [Ellipsis (Ident (CueIdentName env n) NoPos)])
           \<and> structToFields env ?u k [SField name (Type_Named n) doc []] =
               Inr [Field (Ident name NoPos) NoPos (Ident (CueIdentName env n) NoPos)
                      (if doc \<noteq> [] then [docComment env doc] else [])]
           \<and> count_list (NamesWithCountsOver ?u 1) n = 1"
    using once
    by (simp add: CueIdent_def NewIdent_def NewList_def buildField_def addCommentToField_def
        AddComment_def SetComments_def split: sum.splits)
  have doc: "generateCue env k s =
      (if topLevelFields s = [] then Inr s
       else
         (case hoistedDefinitions env ?u k (NamesWithCountsOver ?u 1) of
            Inl err \<Rightarrow> Inl err
          | Inr defs \<Rightarrow>
              Inr (s\<lparr>File := (addImports (neededImports s) (addHeader s))
                     \<lparr>File_Decls :=
                        File_Decls (addImports (neededImports s) (addHeader s))
                          @ map FieldDecl defs @ map FieldDecl (topLevelFields s)\<rparr>\<rparr>)))"
    by (simp add: generateCue_def Let_def)
  have root: "registerTopLevelField env k s (Type_Named n) =
      (case GetConcreteStructType env (Type_Named n) of
         Inl err \<Rightarrow> Inl err
       | Inr flds \<Rightarrow>
           (case structToFields env ?u k flds of
              Inl err \<Rightarrow> Inl err
            | Inr fs \<Rightarrow> registerFields env s fs))"
    by (simp add: registerTopLevelField_def)
  show ?thesis
    by (intro conjI cnt threshold doc hoistedDefinitions_iff namedDefinition_unfold root)
qed


theorem hoisting_threshold_witness:
  "typeUsage exampleService = newDefinitionGenerator
   \<and> countDeclarations exampleWalk exampleService [Type_Named exampleApp] = Inr exampleAppCounted
   \<and> registerTopLevelField exampleEnv 1 exampleAppCounted (Type_Named exampleApp) =
       Inr exampleAppRegistered
   \<and> Count (typeUsage exampleAppRegistered) exampleServer = 1
   \<and> toCueType exampleEnv (typeUsage exampleAppRegistered) 1 (Type_Named exampleServer) =
       Inr (StructLit [Field (Ident ''Port'' NoPos) NoPos (Ident ''int'' NoPos)
                         [exampleDocComment ''The port'']])
   \<and> Count (typeUsage exampleAppRegistered) exampleRetry = 2
   \<and> toCueType exampleEnv (typeUsage exampleAppRegistered) 0 (Type_Named exampleRetry) =
       Inr (Ident ''#Retry'' NoPos)
   \<and> NamesWithCountsOver (typeUsage exampleAppRegistered) 1 = [exampleRetry]
   \<and> generateCue exampleEnv 1 exampleAppRegistered =
       Inr (exampleAppRegistered\<lparr>File :=
         \<lparr>File_Decls =
            [Package (Ident ''svc'' NoPos),
             FieldDecl (Field (Ident ''#Retry'' NewSectionPos) NoPos
               (StructLit [Field (Ident ''Count'' NoPos) NoPos (Ident ''int'' NoPos) []]) []),
             FieldDecl (Field (Ident ''Retry'' NoPos) NoPos (Ident ''#Retry'' NoPos) []),
             FieldDecl (Field (Ident ''Backup'' NoPos) NoPos (Ident ''#Retry'' NoPos) []),
             FieldDecl (Field (Ident ''Server'' NoPos) NoPos
               (StructLit [Field (Ident ''Port'' NoPos) NoPos (Ident ''int'' NoPos)
                             [exampleDocComment ''The port'']]) [])],
          File_Imports = [],
          File_Comments = [headerComment]\<rparr>\<rparr>)"
proof -
  have fresh: "typeUsage exampleService = newDefinitionGenerator"
    by (simp add: exampleService_def)
  have counted: "countDeclarations exampleWalk exampleService [Type_Named exampleApp] =
      Inr exampleAppCounted"
    by (simp add: countNamedUsagesAndCollectImports_def visit_def example_defs model_defs exampleApp_def exampleWalk_def exampleAppCounted_def
        exampleAppRegistered_def exampleTwoLoadsCounted_def exampleTwoLoadsRegistered_def)
  have same: "typeUsage exampleAppRegistered = typeUsage exampleAppCounted"
    by (simp add: exampleAppRegistered_def)
  have registered: "registerTopLevelField exampleEnv 1 exampleAppCounted (Type_Named exampleApp) =
      Inr exampleAppRegistered"
    by (simp add: registerTopLevelField_def example_defs model_defs exampleApp_def exampleWalk_def exampleAppCounted_def
        exampleAppRegistered_def exampleTwoLoadsCounted_def exampleTwoLoadsRegistered_def)
  have names: "NamesWithCountsOver (typeUsage exampleAppRegistered) 1 = [exampleRetry]"
    by (simp add: example_defs model_defs exampleApp_def exampleWalk_def exampleAppCounted_def
        exampleAppRegistered_def exampleTwoLoadsCounted_def exampleTwoLoadsRegistered_def)
  from hoisting_threshold [OF fresh counted same, where n = exampleServer and env = exampleEnv
         and k = 0]
  have server: "Count (typeUsage exampleAppRegistered) exampleServer = 1
      \<and> toCueType exampleEnv (typeUsage exampleAppRegistered) 1 (Type_Named exampleServer) =
          Inr (StructLit [Field (Ident ''Port'' NoPos) NoPos (Ident ''int'' NoPos)
                            [exampleDocComment ''The port'']])"
    by (simp add: example_defs model_defs exampleApp_def exampleWalk_def exampleAppCounted_def
        exampleAppRegistered_def exampleTwoLoadsCounted_def exampleTwoLoadsRegistered_def)
  from hoisting_threshold [OF fresh counted same, where n = exampleRetry and env = exampleEnv
         and k = 0]
  have retry: "Count (typeUsage exampleAppRegistered) exampleRetry = 2
      \<and> toCueType exampleEnv (typeUsage exampleAppRegistered) 0 (Type_Named exampleRetry) =
          Inr (Ident ''#Retry'' NoPos)"
    by (simp add: example_defs model_defs exampleApp_def exampleWalk_def exampleAppCounted_def
        exampleAppRegistered_def exampleTwoLoadsCounted_def exampleTwoLoadsRegistered_def)
  have doc: "generateCue exampleEnv 1 exampleAppRegistered =
       Inr (exampleAppRegistered\<lparr>File :=
         \<lparr>File_Decls =
            [Package (Ident ''svc'' NoPos),
             FieldDecl (Field (Ident ''#Retry'' NewSectionPos) NoPos
               (StructLit [Field (Ident ''Count'' NoPos) NoPos (Ident ''int'' NoPos) []]) []),
             FieldDecl (Field (Ident ''Retry'' NoPos) NoPos (Ident ''#Retry'' NoPos) []),
             FieldDecl (Field (Ident ''Backup'' NoPos) NoPos (Ident ''#Retry'' NoPos) []),
             FieldDecl (Field (Ident ''Server'' NoPos) NoPos
               (StructLit [Field (Ident ''Port'' NoPos) NoPos (Ident ''int'' NoPos)
                             [exampleDocComment ''The port'']]) [])],
          File_Imports = [],
          File_Comments = [headerComment]\<rparr>\<rparr>)"
    by (simp add: generateCue_def namedDefinition_def addImports_def addHeader_def
        example_defs model_defs exampleApp_def exampleWalk_def exampleAppCounted_def
        exampleAppRegistered_def exampleTwoLoadsCounted_def exampleTwoLoadsRegistered_def)
  from fresh counted registered server retry names doc show ?thesis by blast
qed

text \<open>
  The claim C1 as the spec states it fails at the root type of a declaration. Two
  declarations load the named type \<open>Retry\<close>. The walk counts it twice, so the document
  gets the standalone definition \<open>#Retry\<close>; but the two use sites are the roots of the
  declarations, which \<open>registerTopLevelField\<close> resolves and registers field by field:
  the document holds the field \<open>Count\<close> of the record inline at top level and no
  reference to \<open>#Retry\<close>.
\<close>

theorem root_type_inlined_counterexample:
  "countDeclarations exampleWalk exampleService [Type_Named exampleRetry, Type_Named exampleRetry] =
     Inr exampleTwoLoadsCounted
   \<and> Count (typeUsage exampleTwoLoadsCounted) exampleRetry = 2
   \<and> registerTopLevelField exampleEnv 0 exampleTwoLoadsCounted (Type_Named exampleRetry) =
       Inr exampleTwoLoadsRegistered
   \<and> registerTopLevelField exampleEnv 0 exampleTwoLoadsRegistered (Type_Named exampleRetry) =
       Inr exampleTwoLoadsRegistered
   \<and> generateCue exampleEnv 0 exampleTwoLoadsRegistered =
       Inr (exampleTwoLoadsRegistered\<lparr>File :=
         \<lparr>File_Decls =
            [Package (Ident ''svc'' NoPos),
             FieldDecl (Field (Ident ''#Retry'' NewSectionPos) NoPos
               (StructLit [Field (Ident ''Count'' NoPos) NoPos (Ident ''int'' NoPos) []]) []),
             FieldDecl (Field (Ident ''Count'' NoPos) NoPos (Ident ''int'' NoPos) [])],
          File_Imports = [],
          File_Comments = [headerComment]\<rparr>\<rparr>)"
proof -
  have counted: "countDeclarations exampleWalk exampleService
      [Type_Named exampleRetry, Type_Named exampleRetry] = Inr exampleTwoLoadsCounted"
    by (simp add: countNamedUsagesAndCollectImports_def visit_def example_defs model_defs exampleApp_def exampleWalk_def exampleAppCounted_def
        exampleAppRegistered_def exampleTwoLoadsCounted_def exampleTwoLoadsRegistered_def)
  have twice: "Count (typeUsage exampleTwoLoadsCounted) exampleRetry = 2"
    by (simp add: example_defs model_defs exampleApp_def exampleWalk_def exampleAppCounted_def
        exampleAppRegistered_def exampleTwoLoadsCounted_def exampleTwoLoadsRegistered_def)
  have first: "registerTopLevelField exampleEnv 0 exampleTwoLoadsCounted (Type_Named exampleRetry) =
      Inr exampleTwoLoadsRegistered"
    by (simp add: registerTopLevelField_def example_defs model_defs exampleApp_def exampleWalk_def exampleAppCounted_def
        exampleAppRegistered_def exampleTwoLoadsCounted_def exampleTwoLoadsRegistered_def)
  have second: "registerTopLevelField exampleEnv 0 exampleTwoLoadsRegistered
      (Type_Named exampleRetry) = Inr exampleTwoLoadsRegistered"
    by (simp add: registerTopLevelField_def example_defs model_defs exampleApp_def exampleWalk_def exampleAppCounted_def
        exampleAppRegistered_def exampleTwoLoadsCounted_def exampleTwoLoadsRegistered_def mergeField_def
        mergeComments_def)
  have doc: "generateCue exampleEnv 0 exampleTwoLoadsRegistered =
       Inr (exampleTwoLoadsRegistered\<lparr>File :=
         \<lparr>File_Decls =
            [Package (Ident ''svc'' NoPos),
             FieldDecl (Field (Ident ''#Retry'' NewSectionPos) NoPos
               (StructLit [Field (Ident ''Count'' NoPos) NoPos (Ident ''int'' NoPos) []]) []),
             FieldDecl (Field (Ident ''Count'' NoPos) NoPos (Ident ''int'' NoPos) [])],
          File_Imports = [],
          File_Comments = [headerComment]\<rparr>\<rparr>)"
    by (simp add: generateCue_def namedDefinition_def addImports_def addHeader_def
        example_defs model_defs exampleApp_def exampleWalk_def exampleAppCounted_def
        exampleAppRegistered_def exampleTwoLoadsCounted_def exampleTwoLoadsRegistered_def)
  from counted twice first second doc show ?thesis by blast
qed

section \<open>Tags of a field\<close>

















section \<open>The assembled document\<close>

text \<open>
  C8. When the table of top-level fields is empty, \<open>generateCue\<close> returns the service
  as it was: no package clause, no header comment, no import, no definition and no
  field is added to the file. A declaration whose record has no fields leaves the
  service, and with it the table, as it was.
\<close>

theorem empty_table_generates_nothing:
  assumes "topLevelFields s = []"
  shows "generateCue env k s = Inr s
         \<and> (\<forall>t. GetConcreteStructType env t = Inr [] \<longrightarrow> registerTopLevelField env k s t = Inr s)"
  using assms by (simp add: generateCue_def registerTopLevelField_def)

theorem empty_table_generates_nothing_witness:
  "topLevelFields exampleService = []
   \<and> generateCue exampleEnv 0 exampleService = Inr exampleService
   \<and> GetConcreteStructType exampleEnv (Type_Named \<lparr>Named_Id = 4\<rparr>) = Inr []
   \<and> registerTopLevelField exampleEnv 0 exampleService (Type_Named \<lparr>Named_Id = 4\<rparr>) =
       Inr exampleService"
proof -
  have empty: "topLevelFields exampleService = []"
    by (simp add: topLevelFields_def exampleService_def)
  have none: "GetConcreteStructType exampleEnv (Type_Named \<lparr>Named_Id = 4\<rparr>) = Inr []"
    by (simp add: example_defs)
  from empty_table_generates_nothing [OF empty, of exampleEnv 0] empty none
  show ?thesis by simp
qed

lemma remdups_drop_later: "n \<in> set bs \<Longrightarrow> remdups (as @ n # bs) = remdups (as @ bs)"
  by (induction as) auto

lemma first_seen_known:
  "n \<in> set xs \<Longrightarrow> rev (remdups (rev (xs @ n # ys))) = rev (remdups (rev (xs @ ys)))"
  using remdups_drop_later [of n "rev xs" "rev ys"] by simp

lemma first_seen_distinct: "distinct xs \<Longrightarrow> rev (remdups (rev xs)) = xs"
  by (simp add: distinct_remdups_id)

lemma registerFields_first_seen:
  assumes "distinct (map fst (fieldTable s))" and "registerFields env s flds = Inr s'"
  shows "\<exists>names. map (\<lambda>f. LabelName env (Label f)) flds = map Inr names
           \<and> map fst (fieldTable s') = rev (remdups (rev (map fst (fieldTable s) @ names)))"
  using assms
proof (induction flds arbitrary: s)
  case Nil
  then show ?case by (simp add: first_seen_distinct)
next
  case (Cons fld flds)
  from Cons.prems(2) obtain name where name: "LabelName env (Label fld) = Inr name"
    by (auto split: sum.splits)
  show ?case
  proof (cases "fieldLookup s name")
    case None
    let ?s1 = "s\<lparr>fieldTable := fieldTable s @ [(name, fld)]\<rparr>"
    from None have fresh: "name \<notin> set (map fst (fieldTable s))"
      by (simp add: fieldLookup_def map_of_eq_None_iff)
    with Cons.prems(1) have d1: "distinct (map fst (fieldTable ?s1))" by simp
    from Cons.prems(2) name None have r1: "registerFields env ?s1 flds = Inr s'" by simp
    from Cons.IH [OF d1 r1] obtain names where
      "map (\<lambda>f. LabelName env (Label f)) flds = map Inr names"
      "map fst (fieldTable s') = rev (remdups (rev (map fst (fieldTable ?s1) @ names)))"
      by blast
    with name show ?thesis
      by (intro exI [of _ "name # names"]) simp
  next
    case (Some existing)
    let ?s1 = "s\<lparr>fieldTable := AList.update name (mergeField env existing fld) (fieldTable s)\<rparr>"
    from Some have known: "name \<in> set (map fst (fieldTable s))"
      by (auto simp: fieldLookup_def dest: map_of_SomeD intro: rev_image_eqI)
    then have k1: "map fst (fieldTable ?s1) = map fst (fieldTable s)"
      by (simp add: AList.update_keys)
    with Cons.prems(1) have d1: "distinct (map fst (fieldTable ?s1))" by simp
    from Cons.prems(2) name Some have r1: "registerFields env ?s1 flds = Inr s'" by simp
    from Cons.IH [OF d1 r1] k1 obtain names where
      "map (\<lambda>f. LabelName env (Label f)) flds = map Inr names"
      "map fst (fieldTable s') = rev (remdups (rev (map fst (fieldTable s) @ names)))"
      by auto
    with name known show ?thesis
      by (intro exI [of _ "name # names"]) (simp add: first_seen_known del: rev_append)
  qed
qed

lemma importSpecs_paths:
  "map Import_Path (importSpecs m) = Mapping.ordered_keys m"
  by (simp add: importSpecs_def importSpec_def NewImport_def comp_def)

lemma importSpecs_names:
  "list_all (\<lambda>sp. Import_Name sp =
               (if Mapping.lookup_default [] m (Import_Path sp) = Import_Path sp then None
                else Some (Ident (Mapping.lookup_default [] m (Import_Path sp)) NoPos)))
     (importSpecs m)"
  by (simp add: importSpecs_def importSpec_def NewImport_def NewIdent_def list_all_iff)

lemma importSpecs_empty:
  "finite (Mapping.keys m) \<Longrightarrow> importSpecs m = [] \<longleftrightarrow> Mapping.is_empty m"
  by (simp add: importSpecs_def Mapping.ordered_keys_def Mapping.is_empty_def
      sorted_list_of_set_eq_Nil_iff)

text \<open>
  C9. When the table of top-level fields is not empty and the hoisted definitions
  translate to \<open>defs\<close>, \<open>generateCue\<close> appends to the declarations of the file, in this
  order: the package clause (the fixed header comment block is added to the comments of
  the file), one import declaration holding the import specs if any import is needed,
  the hoisted definitions, and the top-level fields in the order of the table. The
  import specs are one per needed path, sorted by path, and a spec has an explicit name
  exactly when the name recorded for the path differs from the path. The definitions
  are one per named type whose count exceeds one, each such type once. The table holds
  the field names in the order in which the registered fields first brought them.
\<close>

theorem document_order:
  assumes "topLevelFields s \<noteq> []"
    and "hoistedDefinitions env (typeUsage s) k (NamesWithCountsOver (typeUsage s) 1) = Inr defs"
    and "finite (Mapping.keys (neededImports s))"
    and "distinct (map fst (counts (typeUsage s)))"
  shows "generateCue env k s =
           Inr (s\<lparr>File :=
                  \<lparr>File_Decls =
                     File_Decls (File s) @ [Package (Ident (svc_Name s) NoPos)]
                       @ (if importSpecs (neededImports s) = [] then []
                          else [ImportDecl (File_Imports (File s) @ importSpecs (neededImports s))])
                       @ map FieldDecl defs
                       @ map (\<lambda>(name, fld). FieldDecl fld) (fieldTable s),
                   File_Imports = File_Imports (File s) @ importSpecs (neededImports s),
                   File_Comments = File_Comments (File s) @ [headerComment]\<rparr>\<rparr>)
         \<and> sorted (map Import_Path (importSpecs (neededImports s)))
         \<and> distinct (map Import_Path (importSpecs (neededImports s)))
         \<and> set (map Import_Path (importSpecs (neededImports s))) = Mapping.keys (neededImports s)
         \<and> list_all (\<lambda>sp. Import_Name sp =
                       (if Mapping.lookup_default [] (neededImports s) (Import_Path sp) = Import_Path sp
                        then None
                        else Some (Ident (Mapping.lookup_default [] (neededImports s) (Import_Path sp)) NoPos)))
              (importSpecs (neededImports s))
         \<and> list_all2 (\<lambda>n d. namedDefinition env (typeUsage s) k n = Inr d
                           \<and> Ident_Name (Label d) = CueIdentName env n)
              (NamesWithCountsOver (typeUsage s) 1) defs
         \<and> distinct (NamesWithCountsOver (typeUsage s) 1)
         \<and> set (NamesWithCountsOver (typeUsage s) 1) = {n. 1 < Count (typeUsage s) n}
         \<and> (\<forall>s0 flds. distinct (map fst (fieldTable s0)) \<and> registerFields env s0 flds = Inr s \<longrightarrow>
               (\<exists>names. map (\<lambda>f. LabelName env (Label f)) flds = map Inr names
                  \<and> map fst (fieldTable s) = rev (remdups (rev (map fst (fieldTable s0) @ names)))))"
proof -
  let ?m = "neededImports s"
  have paths: "map Import_Path (importSpecs ?m) = sorted_list_of_set (Mapping.keys ?m)"
    using assms(3) by (simp add: importSpecs_paths Mapping.ordered_keys_def)
  have doc: "generateCue env k s =
           Inr (s\<lparr>File :=
                  \<lparr>File_Decls =
                     File_Decls (File s) @ [Package (Ident (svc_Name s) NoPos)]
                       @ (if importSpecs ?m = [] then []
                          else [ImportDecl (File_Imports (File s) @ importSpecs ?m)])
                       @ map FieldDecl defs
                       @ map (\<lambda>(name, fld). FieldDecl fld) (fieldTable s),
                   File_Imports = File_Imports (File s) @ importSpecs ?m,
                   File_Comments = File_Comments (File s) @ [headerComment]\<rparr>\<rparr>)"
  proof (cases "Mapping.is_empty ?m")
    case True
    with importSpecs_empty [OF assms(3)] have "importSpecs ?m = []" by simp
    with True assms(1,2) show ?thesis
      by (simp add: generateCue_def addImports_def addHeader_def NewIdent_def topLevelFields_def
          case_prod_unfold)
  next
    case False
    with importSpecs_empty [OF assms(3)] have "importSpecs ?m \<noteq> []" by simp
    with False assms(1,2) show ?thesis
      by (simp add: generateCue_def addImports_def addHeader_def NewIdent_def topLevelFields_def
          case_prod_unfold Let_def)
  qed
  have names: "set (NamesWithCountsOver (typeUsage s) 1) = {n. 1 < Count (typeUsage s) n}"
    using NamesWithCountsOver_mem [OF assms(4)] by auto
  have order: "\<forall>s0 flds. distinct (map fst (fieldTable s0)) \<and> registerFields env s0 flds = Inr s \<longrightarrow>
               (\<exists>names. map (\<lambda>f. LabelName env (Label f)) flds = map Inr names
                  \<and> map fst (fieldTable s) = rev (remdups (rev (map fst (fieldTable s0) @ names))))"
    using registerFields_first_seen by blast
  have sorted: "sorted (map Import_Path (importSpecs ?m))"
    and dist: "distinct (map Import_Path (importSpecs ?m))"
    and keys: "set (map Import_Path (importSpecs ?m)) = Mapping.keys ?m"
    using assms(3) by (simp_all add: paths)
  from doc sorted dist keys importSpecs_names [of ?m] hoistedDefinitions_all2 [OF assms(2)]
    NamesWithCountsOver_distinct [OF assms(4)] names order
  show ?thesis by (intro conjI)
qed

lemma exampleCounted_specs:
  "importSpecs (neededImports exampleCounted) =
     [\<lparr>Import_Name = Some (Ident ''str'' NoPos), Import_Path = ''strings''\<rparr>,
      \<lparr>Import_Name = None, Import_Path = ''time''\<rparr>]"
  by code_simp

lemma exampleCounted_defs:
  "hoistedDefinitions exampleEnv (typeUsage exampleCounted) 0
       (NamesWithCountsOver (typeUsage exampleCounted) 1) =
     Inr [Field (Ident ''#Retry'' NewSectionPos) NoPos
            (StructLit [Field (Ident ''Count'' NoPos) NoPos (Ident ''int'' NoPos) []]) []]"
  by (simp add: example_defs model_defs namedDefinition_def)

theorem document_order_witness:
  "topLevelFields exampleCounted \<noteq> []
   \<and> generateCue exampleEnv 0 exampleCounted =
       Inr (exampleCounted\<lparr>File :=
         \<lparr>File_Decls =
            [Package (Ident ''svc'' NoPos),
             ImportDecl
               [\<lparr>Import_Name = Some (Ident ''str'' NoPos), Import_Path = ''strings''\<rparr>,
                \<lparr>Import_Name = None, Import_Path = ''time''\<rparr>],
             FieldDecl (Field (Ident ''#Retry'' NewSectionPos) NoPos
               (StructLit [Field (Ident ''Count'' NoPos) NoPos (Ident ''int'' NoPos) []]) []),
             FieldDecl (Field (Ident ''retry'' NoPos) NoPos (Ident ''#Retry'' NoPos) [])],
          File_Imports =
            [\<lparr>Import_Name = Some (Ident ''str'' NoPos), Import_Path = ''strings''\<rparr>,
             \<lparr>Import_Name = None, Import_Path = ''time''\<rparr>],
          File_Comments = [headerComment]\<rparr>\<rparr>)"
proof -
  have nonempty: "topLevelFields exampleCounted \<noteq> []"
    by (simp add: topLevelFields_def exampleCounted_def exampleService_def)
  have fin: "finite (Mapping.keys (neededImports exampleCounted))"
    by (simp add: exampleCounted_def exampleService_def)
  have dist: "distinct (map fst (counts (typeUsage exampleCounted)))"
    by (simp add: example_defs model_defs)
  from document_order [OF nonempty exampleCounted_defs fin dist] nonempty
  show ?thesis
    by (simp add: exampleCounted_specs) (simp add: exampleCounted_def exampleService_def)
qed

section \<open>Merging into the field table\<close>

lemma appendToFirstGroup_parts:
  "Label (appendToFirstGroup f cs) = Label f"
  "Optional (appendToFirstGroup f cs) = Optional f"
  "Value (appendToFirstGroup f cs) = Value f"
  by (simp_all add: appendToFirstGroup_def SetComments_def split: list.splits)

lemma appendMissing_parts:
  "Label (appendMissing env f cgs) = Label f
   \<and> Optional (appendMissing env f cgs) = Optional f
   \<and> Value (appendMissing env f cgs) = Value f"
  by (induction cgs arbitrary: f) (simp_all add: appendToFirstGroup_parts)

lemma reposition_parts:
  "Label (reposition f) = Label f"
  "Optional (reposition f) = Optional f"
  "Value (reposition f) = Value f"
  by (simp_all add: reposition_def SetComments_def split: list.splits)

lemma mergeComments_parts:
  "Label (mergeComments env existing fld) = Label existing"
  "Optional (mergeComments env existing fld) = Optional existing"
  "Value (mergeComments env existing fld) = Value existing"
  by (simp_all add: mergeComments_def SetComments_def reposition_parts appendMissing_parts)

lemma mergeField_parts:
  "Label (mergeField env existing fld) = Label existing"
  "Optional (mergeField env existing fld) = Optional existing"
  by (simp_all add: mergeField_def Let_def setValue_def mergeComments_parts)

lemma mergeField_same_value:
  "Value existing = Value fld \<Longrightarrow> mergeField env existing fld = mergeComments env existing fld"
  by (simp add: mergeField_def Let_def mergeComments_parts)

lemma appendMissing_present:
  "list_all (commentAlreadyPresent env f) cgs \<Longrightarrow> appendMissing env f cgs = f"
  by (induction cgs) simp_all

lemma reposition_texts:
  "map (\<lambda>g. map Text (List g)) (Comments (reposition f)) = map (\<lambda>g. map Text (List g)) (Comments f)"
  by (simp add: reposition_def SetComments_def split: list.splits)

lemma fieldLookup_update:
  "map_of (AList.update k v al) = (map_of al)(k \<mapsto> v)"
  by (rule AList.update_conv')

lemma update_same:
  "map_of al k = Some v \<Longrightarrow> AList.update k v al = al"
  by (induction al) auto

text \<open>
  What the merge keeps. Merging a field into the table when a field with the same
  name and an equal value is already there: the registration succeeds, the table keeps
  its size and its names, the entries under other names stay as they are, and the entry
  under the name keeps its label, its optional mark and its value, which is not turned
  into a conjunction with itself. When the incoming field has no comment the whole
  service is unchanged. When it has the comment of the existing field and every block
  of it is already present, the entry keeps the lines of its comment: it is the
  existing field with the position marks of its comment block set as \<open>reposition\<close>
  sets them.
\<close>

lemma merge_equal_value:
  assumes "LabelName env (Label fld) = Inr name"
    and "fieldLookup s name = Some existing"
    and "Value existing = Value fld"
  shows "\<exists>s' merged.
           registerFields env s [fld] = Inr s'
           \<and> length (fieldTable s') = length (fieldTable s)
           \<and> map fst (fieldTable s') = map fst (fieldTable s)
           \<and> fieldLookup s' = (fieldLookup s)(name \<mapsto> merged)
           \<and> Value merged = Value existing
           \<and> Label merged = Label existing
           \<and> Optional merged = Optional existing
           \<and> (Comments fld = [] \<longrightarrow> merged = existing \<and> s' = s)
           \<and> (Comments fld = Comments existing
                \<and> list_all (commentAlreadyPresent env existing) (Comments fld) \<longrightarrow>
                merged = reposition existing
                \<and> map (\<lambda>g. map Text (List g)) (Comments merged) =
                    map (\<lambda>g. map Text (List g)) (Comments existing))"
proof -
  let ?merged = "mergeField env existing fld"
  let ?s' = "s\<lparr>fieldTable := AList.update name ?merged (fieldTable s)\<rparr>"
  from assms(2) have known: "name \<in> fst ` set (fieldTable s)"
    by (auto simp: fieldLookup_def dest: map_of_SomeD intro: rev_image_eqI)
  have run: "registerFields env s [fld] = Inr ?s'"
    using assms(1,2) by simp
  have keys: "map fst (fieldTable ?s') = map fst (fieldTable s)"
    using known by (simp add: AList.update_keys)
  have size: "length (fieldTable ?s') = length (fieldTable s)"
    using keys by (metis length_map)
  have look: "fieldLookup ?s' = (fieldLookup s)(name \<mapsto> ?merged)"
    by (simp add: fieldLookup_def fieldLookup_update)
  have val: "Value ?merged = Value existing"
    using assms(3) by (simp add: mergeField_same_value mergeComments_parts)
  have absent: "?merged = existing \<and> ?s' = s" if "Comments fld = []"
  proof -
    from that assms(3) have m: "?merged = existing"
      by (simp add: mergeField_same_value mergeComments_def)
    from assms(2) have "AList.update name existing (fieldTable s) = fieldTable s"
      by (simp add: fieldLookup_def update_same)
    with m show ?thesis by simp
  qed
  have same: "?merged = reposition existing
              \<and> map (\<lambda>g. map Text (List g)) (Comments ?merged) =
                  map (\<lambda>g. map Text (List g)) (Comments existing)"
    if "Comments fld = Comments existing \<and> list_all (commentAlreadyPresent env existing) (Comments fld)"
  proof -
    from that have eq: "Comments fld = Comments existing"
      and present: "list_all (commentAlreadyPresent env existing) (Comments fld)" by blast+
    have "mergeComments env existing fld = reposition existing"
    proof (cases "Comments existing = []")
      case True
      then show ?thesis by (simp add: mergeComments_def eq reposition_def)
    next
      case False
      with eq present show ?thesis
        by (simp add: mergeComments_def appendMissing_present)
    qed
    with assms(3) show ?thesis
      by (simp add: mergeField_same_value reposition_texts)
  qed
  have lab: "Label ?merged = Label existing" and opt: "Optional ?merged = Optional existing"
    by (simp_all add: mergeField_parts)
  have absent': "Comments fld = [] \<longrightarrow> ?merged = existing \<and> ?s' = s"
    using absent by blast
  have same': "Comments fld = Comments existing
                \<and> list_all (commentAlreadyPresent env existing) (Comments fld) \<longrightarrow>
                ?merged = reposition existing
                \<and> map (\<lambda>g. map Text (List g)) (Comments ?merged) =
                    map (\<lambda>g. map Text (List g)) (Comments existing)"
    using same by blast
  show ?thesis
    by (intro exI [of _ ?s'] exI [of _ ?merged] conjI run size keys look val lab opt absent' same')
qed

lemma merge_equal_value_example:
  "registerTopLevelField exampleEnv 0 exampleService (Type_Named \<lparr>Named_Id = 2\<rparr>) =
     Inr (exampleService\<lparr>fieldTable := [(''Name'', exampleName)]\<rparr>)
   \<and> registerFields exampleEnv (exampleService\<lparr>fieldTable := [(''Name'', exampleName)]\<rparr>)
       [exampleName] =
       Inr (exampleService\<lparr>fieldTable := [(''Name'', exampleName)]\<rparr>)
   \<and> registerFields exampleEnv (exampleService\<lparr>fieldTable := [(''Port'', examplePort)]\<rparr>)
       [examplePort] =
       Inr (exampleService\<lparr>fieldTable := [(''Port'', reposition examplePort)]\<rparr>)
   \<and> Value (reposition examplePort) = Ident ''int'' NoPos
   \<and> map (\<lambda>g. map Text (List g)) (Comments (reposition examplePort)) = [[''// The port'']]"
proof -
  have name: "LabelName exampleEnv (Label exampleName) = Inr ''Name''"
    and port: "LabelName exampleEnv (Label examplePort) = Inr ''Port''"
    by (simp_all add: exampleEnv_def exampleLabelName_def exampleName_def examplePort_def)
  have look_name:
    "fieldLookup (exampleService\<lparr>fieldTable := [(''Name'', exampleName)]\<rparr>) ''Name'' = Some exampleName"
    and look_port:
    "fieldLookup (exampleService\<lparr>fieldTable := [(''Port'', examplePort)]\<rparr>) ''Port'' = Some examplePort"
    by (simp_all add: fieldLookup_def)
  have present: "list_all (commentAlreadyPresent exampleEnv examplePort) (Comments examplePort)"
    by (simp add: exampleEnv_def exampleCommentAlreadyPresent_def examplePort_def
        exampleDocComment_def)
  have first: "registerTopLevelField exampleEnv 0 exampleService (Type_Named \<lparr>Named_Id = 2\<rparr>) =
     Inr (exampleService\<lparr>fieldTable := [(''Name'', exampleName)]\<rparr>)"
    by (simp add: registerTopLevelField_def example_defs model_defs exampleName_def)
  from merge_equal_value [OF name look_name refl]
  have a: "registerFields exampleEnv (exampleService\<lparr>fieldTable := [(''Name'', exampleName)]\<rparr>)
       [exampleName] = Inr (exampleService\<lparr>fieldTable := [(''Name'', exampleName)]\<rparr>)"
    by (auto simp: exampleName_def)
  from merge_equal_value [OF port look_port refl] present
  have b: "registerFields exampleEnv (exampleService\<lparr>fieldTable := [(''Port'', examplePort)]\<rparr>)
       [examplePort] = Inr (exampleService\<lparr>fieldTable := [(''Port'', reposition examplePort)]\<rparr>)"
    by (simp add: port look_port mergeField_same_value mergeComments_def appendMissing_present)
  have c: "Value (reposition examplePort) = Ident ''int'' NoPos"
    "map (\<lambda>g. map Text (List g)) (Comments (reposition examplePort)) = [[''// The port'']]"
    by (simp_all add: reposition_def examplePort_def exampleDocComment_def SetComments_def)
  from first a b c show ?thesis by blast
qed

text \<open>
  C2, at the failing input. The table holds the field \<open>Port\<close> with its one-line comment
  as the documentation gave it, and the same field is merged into it: same label, equal
  value, identical comment. The table keeps its size and the value is not conjoined
  with itself, but the merge is not the identity: the comment block of the field is
  moved (position 0, first line on a new section), although the union of the comments
  is the one line it was.
\<close>

theorem self_merge_moves_comment:
  "examplePort =
     Field (Ident ''Port'' NoPos) NoPos (Ident ''int'' NoPos)
       [\<lparr>Doc = False, Line = True, Position = 4,
         List = [\<lparr>Slash = NoPos, Text = ''// The port''\<rparr>]\<rparr>]
   \<and> registerTopLevelField exampleEnv 0 exampleService (Type_Named exampleServer) =
       Inr (exampleService\<lparr>fieldTable := [(''Port'', examplePort)]\<rparr>)
   \<and> mergeField exampleEnv examplePort examplePort =
       Field (Ident ''Port'' NoPos) NoPos (Ident ''int'' NoPos)
         [\<lparr>Doc = False, Line = True, Position = 0,
           List = [\<lparr>Slash = NewSectionPos, Text = ''// The port''\<rparr>]\<rparr>]
   \<and> mergeField exampleEnv examplePort examplePort \<noteq> examplePort
   \<and> registerFields exampleEnv (exampleService\<lparr>fieldTable := [(''Port'', examplePort)]\<rparr>)
       [examplePort] =
       Inr (exampleService\<lparr>fieldTable :=
              [(''Port'', mergeField exampleEnv examplePort examplePort)]\<rparr>)"
proof -
  have port: "examplePort =
     Field (Ident ''Port'' NoPos) NoPos (Ident ''int'' NoPos)
       [\<lparr>Doc = False, Line = True, Position = 4,
         List = [\<lparr>Slash = NoPos, Text = ''// The port''\<rparr>]\<rparr>]"
    by (simp add: examplePort_def exampleDocComment_def)
  have loaded: "registerTopLevelField exampleEnv 0 exampleService (Type_Named exampleServer) =
       Inr (exampleService\<lparr>fieldTable := [(''Port'', examplePort)]\<rparr>)"
    by (simp add: registerTopLevelField_def example_defs model_defs examplePort_def)
  have merged: "mergeField exampleEnv examplePort examplePort =
       Field (Ident ''Port'' NoPos) NoPos (Ident ''int'' NoPos)
         [\<lparr>Doc = False, Line = True, Position = 0,
           List = [\<lparr>Slash = NewSectionPos, Text = ''// The port''\<rparr>]\<rparr>]"
    by (simp add: mergeField_def mergeComments_def reposition_def appendToFirstGroup_def
        example_defs model_defs examplePort_def)
  have moved: "mergeField exampleEnv examplePort examplePort \<noteq> examplePort"
    unfolding merged by (simp add: port)
  have registered:
    "registerFields exampleEnv (exampleService\<lparr>fieldTable := [(''Port'', examplePort)]\<rparr>)
       [examplePort] =
     Inr (exampleService\<lparr>fieldTable :=
            [(''Port'', mergeField exampleEnv examplePort examplePort)]\<rparr>)"
    by (simp add: fieldLookup_def exampleEnv_def exampleLabelName_def examplePort_def)
  from port loaded merged moved registered show ?thesis by blast
qed

section \<open>The optional mark\<close>

lemma applyTag_optional:
  assumes "applyTag env (fld, isOptional) tag = Inr (fld', isOptional')"
  shows "Optional fld' = Optional fld
         \<and> isOptional' =
             (isOptional \<or> Key tag = ''json'' \<and> ''omitempty'' \<in> set (Options tag)
                \<or> Key tag = ''cue'' \<and> ''opt'' \<in> set (Options tag))"
  using assms
  by (auto simp: applyTag_def Let_def setLabel_def setValue_def split: if_splits sum.splits)

lemma applyTags_optional:
  assumes "applyTags env (fld, isOptional) tags = Inr (fld', isOptional')"
  shows "Optional fld' = Optional fld
         \<and> isOptional' =
             (isOptional
              \<or> list_ex (\<lambda>tag. Key tag = ''json'' \<and> ''omitempty'' \<in> set (Options tag)
                              \<or> Key tag = ''cue'' \<and> ''opt'' \<in> set (Options tag)) tags)"
  using assms
proof (induction tags arbitrary: fld isOptional)
  case Nil
  then show ?case by simp
next
  case (Cons tag tags)
  from Cons.prems obtain f1 o1 where
    step: "applyTag env (fld, isOptional) tag = Inr (f1, o1)"
    and rest: "applyTags env (f1, o1) tags = Inr (fld', isOptional')"
    by (auto split: sum.splits)
  from applyTag_optional [OF step] Cons.IH [OF rest] show ?case by auto
qed

lemma buildField_optional:
  assumes "buildField env name v doc tags = Inr f"
  shows "Optional f =
           (if list_ex (\<lambda>tag. Key tag = ''json'' \<and> ''omitempty'' \<in> set (Options tag)
                              \<or> Key tag = ''cue'' \<and> ''opt'' \<in> set (Options tag)) tags
            then BlankPos else NoPos)"
proof -
  from assms obtain fld isOptional where
    run: "applyTags env (Field (NewIdent name) NoPos v [], False) tags = Inr (fld, isOptional)"
    and f: "f = (let fld1 = (if isOptional then setOptional fld BlankPos else fld)
                 in if doc \<noteq> [] then addCommentToField env fld1 doc else fld1)"
    by (auto simp: buildField_def Let_def split: sum.splits)
  from applyTags_optional [OF run] show ?thesis
    by (simp add: f Let_def setOptional_def addCommentToField_def AddComment_def SetComments_def)
qed

lemma registerFields_optional:
  assumes "registerFields env s flds = Inr s'"
  shows "map_option Optional (fieldLookup s' name) =
           (case fieldLookup s name of
              Some existing \<Rightarrow> Some (Optional existing)
            | None \<Rightarrow> map_option Optional (find (\<lambda>f. LabelName env (Label f) = Inr name) flds))"
  using assms
proof (induction flds arbitrary: s)
  case Nil
  then show ?case by (simp split: option.splits)
next
  case (Cons fld flds)
  from Cons.prems obtain nm where nm: "LabelName env (Label fld) = Inr nm"
    by (auto split: sum.splits)
  show ?case
  proof (cases "fieldLookup s nm")
    case None
    let ?s1 = "s\<lparr>fieldTable := fieldTable s @ [(nm, fld)]\<rparr>"
    from Cons.prems nm None have "registerFields env ?s1 flds = Inr s'" by simp
    from Cons.IH [OF this] nm None show ?thesis
      by (auto simp: fieldLookup_def map_add_def split: option.splits)
  next
    case (Some existing)
    let ?s1 = "s\<lparr>fieldTable := AList.update nm (mergeField env existing fld) (fieldTable s)\<rparr>"
    from Cons.prems nm Some have "registerFields env ?s1 flds = Inr s'" by simp
    from Cons.IH [OF this] nm Some show ?thesis
      by (auto simp: fieldLookup_def fieldLookup_update mergeField_parts split: option.splits)
  qed
qed

text \<open>
  C3, as the code has it. A field built from a schema field is marked optional exactly
  when one of its tags is a \<open>json\<close> tag with the option \<open>omitempty\<close> or a \<open>cue\<close> tag
  with the option \<open>opt\<close>. After a list of fields is registered, the optional mark
  under a name is the mark of the field that was in the table under that name before,
  and for a name that was not in the table the mark of the first registered field with
  that name: the field that introduced the name decides, and later fields with the same
  name do not change the mark.
\<close>

theorem optional_mark_of_first_contribution:
  assumes "registerFields env s flds = Inr s'"
  shows "map_option Optional (fieldLookup s' name) =
           (case fieldLookup s name of
              Some existing \<Rightarrow> Some (Optional existing)
            | None \<Rightarrow> map_option Optional (find (\<lambda>f. LabelName env (Label f) = Inr name) flds))
         \<and> (case buildField env nm v doc tags of
              Inl err \<Rightarrow> True
            | Inr f \<Rightarrow>
                Optional f =
                  (if list_ex (\<lambda>tag. Key tag = ''json'' \<and> ''omitempty'' \<in> set (Options tag)
                                    \<or> Key tag = ''cue'' \<and> ''opt'' \<in> set (Options tag)) tags
                   then BlankPos else NoPos))"
  using registerFields_optional [OF assms] buildField_optional [of env nm v doc tags]
  by (simp split: sum.splits)

theorem optional_mark_of_first_contribution_witness:
  "registerFields exampleEnv (exampleService\<lparr>fieldTable := [(''Name'', exampleName)]\<rparr>)
     [Field (Ident ''Name'' NoPos) BlankPos (Ident ''string'' NoPos) []] =
     Inr (exampleService\<lparr>fieldTable := [(''Name'', exampleName)]\<rparr>)
   \<and> map_option Optional
       (fieldLookup (exampleService\<lparr>fieldTable := [(''Name'', exampleName)]\<rparr>) ''Name'') =
       Some NoPos
   \<and> registerFields exampleEnv exampleService
       [Field (Ident ''Name'' NoPos) BlankPos (Ident ''string'' NoPos) [], exampleName] =
       Inr (exampleService\<lparr>fieldTable :=
              [(''Name'', Field (Ident ''Name'' NoPos) BlankPos (Ident ''string'' NoPos) [])]\<rparr>)
   \<and> buildField exampleEnv ''Name'' (Ident ''string'' NoPos) []
       [\<lparr>Key = ''json'', Name = [], Options = [''omitempty'']\<rparr>] =
       Inr (Field (Ident ''Name'' NoPos) BlankPos (Ident ''string'' NoPos) [])"
proof -
  have one: "registerFields exampleEnv (exampleService\<lparr>fieldTable := [(''Name'', exampleName)]\<rparr>)
     [Field (Ident ''Name'' NoPos) BlankPos (Ident ''string'' NoPos) []] =
     Inr (exampleService\<lparr>fieldTable := [(''Name'', exampleName)]\<rparr>)"
    by (simp add: example_defs model_defs exampleName_def mergeField_def mergeComments_def)
  have two: "registerFields exampleEnv exampleService
       [Field (Ident ''Name'' NoPos) BlankPos (Ident ''string'' NoPos) [], exampleName] =
       Inr (exampleService\<lparr>fieldTable :=
              [(''Name'', Field (Ident ''Name'' NoPos) BlankPos (Ident ''string'' NoPos) [])]\<rparr>)"
    by (simp add: example_defs model_defs exampleName_def mergeField_def mergeComments_def)
  from optional_mark_of_first_contribution
         [OF one, where name = "''Name''" and nm = "''Name''" and v = "Ident ''string'' NoPos"
            and doc = "[]" and tags = "[\<lparr>Key = ''json'', Name = [], Options = [''omitempty'']\<rparr>]"]
       optional_mark_of_first_contribution [OF two, where name = "''Name''"]
       one two
  show ?thesis
    by (simp add: example_defs model_defs exampleName_def)
qed

text \<open>
  The claim C3 as the spec states it fails. A record whose field \<open>Name\<close> has no tag is
  registered first, then a record whose field \<open>Name\<close> carries the \<open>json\<close> option
  \<open>omitempty\<close>: on its own the second field is built optional, yet the merged field of
  the table is not marked optional.
\<close>

theorem optional_of_later_declaration_counterexample:
  "registerTopLevelField exampleEnv 0 exampleService (Type_Named \<lparr>Named_Id = 2\<rparr>) =
     Inr (exampleService\<lparr>fieldTable := [(''Name'', exampleName)]\<rparr>)
   \<and> structToFields exampleEnv (typeUsage exampleService) 0
       [SField ''Name'' (Type_Builtin Builtin_STRING) []
          [\<lparr>Key = ''json'', Name = [], Options = [''omitempty'']\<rparr>]] =
       Inr [Field (Ident ''Name'' NoPos) BlankPos (Ident ''string'' NoPos) []]
   \<and> registerTopLevelField exampleEnv 0 (exampleService\<lparr>fieldTable := [(''Name'', exampleName)]\<rparr>)
       (Type_Named \<lparr>Named_Id = 3\<rparr>) =
       Inr (exampleService\<lparr>fieldTable := [(''Name'', exampleName)]\<rparr>)
   \<and> Optional exampleName = NoPos"
  by (simp add: registerTopLevelField_def example_defs model_defs exampleName_def mergeField_def
      mergeComments_def)

section \<open>The position of a merged comment\<close>

lemma appendMissing_first_group:
  assumes "Comments existing = g # gs"
  shows "\<exists>extra. Comments (appendMissing env existing cgs) = g\<lparr>List := List g @ extra\<rparr> # gs"
  using assms
proof (induction cgs arbitrary: existing g)
  case Nil
  then show ?case by (intro exI [of _ "[]"]) simp
next
  case (Cons cg cgs)
  show ?case
  proof (cases "commentAlreadyPresent env existing cg")
    case True
    with Cons.IH [OF Cons.prems] show ?thesis by simp
  next
    case False
    let ?e1 = "appendToFirstGroup existing (List cg)"
    from Cons.prems have "Comments ?e1 = g\<lparr>List := List g @ List cg\<rparr> # gs"
      by (simp add: appendToFirstGroup_def SetComments_def)
    from Cons.IH [OF this] obtain extra where
      "Comments (appendMissing env ?e1 cgs) = g\<lparr>List := (List g @ List cg) @ extra\<rparr> # gs"
      by auto
    with False show ?thesis
      by (intro exI [of _ "List cg @ extra"]) simp
  qed
qed

text \<open>
  Whenever the incoming field has a comment and the first comment block of the existing
  field has a line, the merge sets the position of the block to 0 and the position of
  its first line to a new section, whatever the number of lines of the block.
\<close>

lemma mergeComments_repositions:
  assumes "Comments fld \<noteq> []" and "Comments existing = g # gs" and "List g = c # cs"
  shows "\<exists>extra. Comments (mergeComments env existing fld) =
           g\<lparr>Position := 0, List := c\<lparr>Slash := NewSectionPos\<rparr> # cs @ extra\<rparr> # gs"
proof -
  from appendMissing_first_group [OF assms(2), of env "Comments fld"] obtain extra where
    "Comments (appendMissing env existing (Comments fld)) = g\<lparr>List := List g @ extra\<rparr> # gs"
    by blast
  with assms show ?thesis
    by (intro exI [of _ extra]) (simp add: mergeComments_def reposition_def SetComments_def)
qed

text \<open>
  C4, at the failing input. The record of \<open>Server\<close> has one field \<open>Port\<close> with the
  documentation \<open>The port\<close>. Registered once, the field carries the one-line comment as
  the documentation gave it. Registered a second time, the comment is already present
  and the union is the same single line, and still the block is moved: its position is
  set to 0 and its line to a new section.
\<close>

theorem single_line_comment_repositioned:
  "registerTopLevelField exampleEnv 0 exampleService (Type_Named exampleServer) =
     Inr (exampleService\<lparr>fieldTable :=
       [(''Port'', Field (Ident ''Port'' NoPos) NoPos (Ident ''int'' NoPos)
           [\<lparr>Doc = False, Line = True, Position = 4,
             List = [\<lparr>Slash = NoPos, Text = ''// The port''\<rparr>]\<rparr>])]\<rparr>)
   \<and> registerTopLevelField exampleEnv 0
       (exampleService\<lparr>fieldTable :=
          [(''Port'', Field (Ident ''Port'' NoPos) NoPos (Ident ''int'' NoPos)
              [\<lparr>Doc = False, Line = True, Position = 4,
                List = [\<lparr>Slash = NoPos, Text = ''// The port''\<rparr>]\<rparr>])]\<rparr>)
       (Type_Named exampleServer) =
     Inr (exampleService\<lparr>fieldTable :=
       [(''Port'', Field (Ident ''Port'' NoPos) NoPos (Ident ''int'' NoPos)
           [\<lparr>Doc = False, Line = True, Position = 0,
             List = [\<lparr>Slash = NewSectionPos, Text = ''// The port''\<rparr>]\<rparr>])]\<rparr>)"
  by (simp add: registerTopLevelField_def example_defs model_defs mergeField_def
      mergeComments_def reposition_def appendToFirstGroup_def)

end
